theory Spec2Isabelle
  imports Main
begin

section \<open>Data model\<close>

text \<open>
  The administrative user service (\<^verbatim>\<open>server/src/services/user-admin.service.ts\<close>)
  sequences calls to a user store, an album store, a job queue, the user core and the
  preference utilities. The service itself is embedded from its source. Its
  collaborators are interfaces whose implementations are not part of the sources at
  hand; they are modelled from the specification as an in-memory world, and every call
  made to one of them is also recorded, in order, in the field \<open>calls\<close>.

  An operation that throws keeps the effects it had before the throw, so every operation
  returns the world together with either the error (\<open>Inl\<close>) or the value (\<open>Inr\<close>).
\<close>

datatype UserStatus = ACTIVE | REMOVING | DELETED

datatype UserMetadataKey = PREFERENCES

datatype JobName = NOTIFY_SIGNUP | USER_DELETION

datatype error =
    BadRequestException string
  | ForbiddenException string
  | DownstreamFailure string

text \<open>The bcrypt hash of a plaintext, kept symbolic: the credential is opaque to this layer.\<close>

datatype hashed = Bcrypt string

text \<open>
  \<open>UserAvatarColor\<close> is a string enum declared outside these sources. Its members are the
  type parameter \<open>'c\<close> throughout; a member of a string enum is a non-empty string, so an
  avatar colour that is present is truthy.
\<close>

record 'c UserPreferences =
  memories_enabled :: bool
  avatar_color :: 'c

text \<open>The sparse form kept in the metadata: a field that is absent is \<open>None\<close>.\<close>

record 'c UserPreferencesPartial =
  memories_enabled_opt :: "bool option"
  avatar_color_opt :: "'c option"

text \<open>
  Timestamps are natural numbers; \<open>deletedAt = None\<close> is the source's \<open>null\<close>. The stored
  quota is \<open>null\<close> or a number of bytes.
\<close>

record 'c UserEntity =
  userId :: string
  email :: string
  name :: string
  password :: hashed
  isAdmin :: bool
  status :: UserStatus
  quotaSizeInBytes :: "int option"
  quotaUsageInBytes :: int
  shouldChangePassword :: bool
  deletedAt :: "nat option"
  metadata :: "(UserMetadataKey \<times> 'c UserPreferencesPartial) list"

text \<open>
  \<open>Partial<UserEntity>\<close>, the argument of the store's update: a column that is not written
  is \<open>None\<close>. A nullable column that is written carries its new value, which may be null:
  \<open>Some None\<close>.
\<close>

record UserPatch =
  set_email :: "string option"
  set_name :: "string option"
  set_password :: "hashed option"
  set_isAdmin :: "bool option"
  set_status :: "UserStatus option"
  set_quotaSizeInBytes :: "int option option"
  set_shouldChangePassword :: "bool option"
  set_deletedAt :: "nat option option"

record AlbumEntity =
  albumId :: string
  ownerId :: string
  albumDeletedAt :: "nat option"

record AssetEntity =
  assetOwnerId :: string
  fileSizeInByte :: int

text \<open>\<open>UserFindOptions\<close>: \<open>withDeleted\<close> is optional, \<open>{}\<close> leaves it undefined (\<open>None\<close>).\<close>

record UserFindOptions =
  withDeleted :: "bool option"

datatype JobData =
    SignupData string "string option"
  | DeletionData string "bool option"

datatype JobItem = JobItem JobName JobData

subsection \<open>Commands\<close>

text \<open>
  The create command is destructured by the service into \<open>memoriesEnabled\<close>, \<open>notify\<close> and
  the rest, which is what the user core receives: the rest is the parent record, the
  command its extension.
\<close>

record UserCreateDto =
  new_email :: string
  new_password :: string
  new_name :: string
  new_quotaSizeInBytes :: "int option"
  new_shouldChangePassword :: "bool option"

record UserAdminCreateDto = UserCreateDto +
  new_memoriesEnabled :: "bool option"
  new_notify :: "bool option"

text \<open>
  In the update command every field is optional (\<open>None\<close> is undefined). The quota may also
  be given as null: \<open>Some None\<close>.
\<close>

record 'c UserAdminUpdateDto =
  upd_email :: "string option"
  upd_password :: "string option"
  upd_name :: "string option"
  upd_isAdmin :: "bool option"
  upd_shouldChangePassword :: "bool option"
  upd_quotaSizeInBytes :: "int option option"
  upd_memoriesEnabled :: "bool option"
  upd_avatarColor :: "'c option"

record UserAdminDeleteDto =
  force :: "bool option"

record UserAdminSearchDto =
  search_withDeleted :: "bool option"

record 'c AuthDto =
  user :: "'c UserEntity"

subsection \<open>Responses\<close>

record UserResponseDto =
  res_id :: string
  res_email :: string
  res_name :: string
  res_isAdmin :: bool
  res_shouldChangePassword :: bool
  res_deletedAt :: "nat option"

record UserAdminResponseDto = UserResponseDto +
  res_status :: UserStatus
  res_quotaSizeInBytes :: "int option"
  res_quotaUsageInBytes :: int

subsection \<open>The world of the collaborators\<close>

datatype 'c Call =
    UserGet string UserFindOptions
  | UserGetList "bool option"
  | UserUpdate string UserPatch
  | UserUpsertMetadata string UserMetadataKey "'c UserPreferencesPartial"
  | UserSyncUsage string
  | AlbumSoftDeleteAll string
  | AlbumRestoreAll string
  | JobQueue JobItem
  | CoreCreateUser UserCreateDto
  | CoreUpdateUser "'c UserEntity" string "'c UserAdminUpdateDto"

text \<open>
  \<open>users\<close>, \<open>albums\<close> and \<open>assets\<close> are the rows of the stores, soft-deleted rows included;
  \<open>jobs\<close> is the queue; \<open>clock\<close> is what \<open>new Date()\<close> reads; \<open>uuids\<close> are the identifiers the
  user store will give to new rows; \<open>defaults\<close> are the system's default preferences;
  \<open>rules\<close> are the user core's field-level authorization rules, which the specification
  leaves external; \<open>calls\<close> is the record of the calls made so far.
\<close>

record 'c World =
  users :: "'c UserEntity list"
  albums :: "AlbumEntity list"
  assets :: "AssetEntity list"
  jobs :: "JobItem list"
  clock :: nat
  uuids :: "string list"
  defaults :: "'c UserPreferences"
  rules :: "'c UserEntity \<Rightarrow> string \<Rightarrow> 'c UserAdminUpdateDto \<Rightarrow> error option"
  calls :: "'c Call list"

definition called :: "'c Call \<Rightarrow> 'c World \<Rightarrow> 'c World" where
  "called c w = w\<lparr>calls := calls w @ [c]\<rparr>"

text \<open>JavaScript truthiness of an optional boolean and of an optional, nullable number.\<close>

definition truthy :: "bool option \<Rightarrow> bool" where
  "truthy b = (b = Some True)"

definition truthy_number :: "int option option \<Rightarrow> bool" where
  "truthy_number q = (case q of Some (Some n) \<Rightarrow> n \<noteq> 0 | _ \<Rightarrow> False)"

section \<open>Collaborators\<close>

subsection \<open>User store\<close>

text \<open>
  Modelled from the spec: the \<open>IUserRepository\<close> implementation is missing. ``Persists
  user records; supports get-by-id (optionally including soft-deleted rows), list,
  update, and a usage-sync operation.'' A row is soft-deleted when its \<open>deletedAt\<close> is
  not null.
\<close>

definition visible :: "bool option \<Rightarrow> 'c UserEntity \<Rightarrow> bool" where
  "visible wd u = (truthy wd \<or> deletedAt u = None)"

text \<open>
  Modelled from the spec: \<open>get(id, options)\<close> is missing. It returns the row with that id
  that the options make visible, or nothing.
\<close>

definition userRepository_get ::
  "string \<Rightarrow> UserFindOptions \<Rightarrow> 'c World \<Rightarrow> 'c UserEntity option \<times> 'c World" where
  "userRepository_get i options w =
     (find (\<lambda>u. userId u = i \<and> visible (withDeleted options) u) (users w),
      called (UserGet i options) w)"

text \<open>
  Modelled from the spec: \<open>getList({withDeleted})\<close> is missing. It lists the rows,
  ``optionally including soft-deleted''.
\<close>

definition userRepository_getList ::
  "bool option \<Rightarrow> 'c World \<Rightarrow> 'c UserEntity list \<times> 'c World" where
  "userRepository_getList wd w =
     (filter (visible wd) (users w), called (UserGetList wd) w)"

text \<open>The patch \<open>{}\<close>, which writes no column.\<close>

definition no_columns :: UserPatch where
  "no_columns =
     \<lparr>set_email = None, set_name = None, set_password = None, set_isAdmin = None,
      set_status = None, set_quotaSizeInBytes = None, set_shouldChangePassword = None,
      set_deletedAt = None\<rparr>"

text \<open>
  Modelled from the spec: how the store writes a patch to a row is missing. Each column
  the patch carries replaces the value of the row; the others keep theirs.
\<close>

definition apply_patch :: "UserPatch \<Rightarrow> 'c UserEntity \<Rightarrow> 'c UserEntity" where
  "apply_patch p u =
     u\<lparr>email := (case set_email p of None \<Rightarrow> email u | Some v \<Rightarrow> v),
       name := (case set_name p of None \<Rightarrow> name u | Some v \<Rightarrow> v),
       password := (case set_password p of None \<Rightarrow> password u | Some v \<Rightarrow> v),
       isAdmin := (case set_isAdmin p of None \<Rightarrow> isAdmin u | Some v \<Rightarrow> v),
       status := (case set_status p of None \<Rightarrow> status u | Some v \<Rightarrow> v),
       quotaSizeInBytes :=
         (case set_quotaSizeInBytes p of None \<Rightarrow> quotaSizeInBytes u | Some v \<Rightarrow> v),
       shouldChangePassword :=
         (case set_shouldChangePassword p of None \<Rightarrow> shouldChangePassword u | Some v \<Rightarrow> v),
       deletedAt := (case set_deletedAt p of None \<Rightarrow> deletedAt u | Some v \<Rightarrow> v)\<rparr>"

text \<open>
  Modelled from the spec: \<open>update(id, patch)\<close> writes the patch to the row with that id and
  returns the row as stored, soft-deleted or not. Without such a row the store fails.
\<close>

definition userRepository_update ::
  "string \<Rightarrow> UserPatch \<Rightarrow> 'c World \<Rightarrow> (error + 'c UserEntity) \<times> 'c World" where
  "userRepository_update i p w =
     (let w1 = called (UserUpdate i p)
                 (w\<lparr>users := map (\<lambda>u. if userId u = i then apply_patch p u else u) (users w)\<rparr>)
      in case find (\<lambda>u. userId u = i) (users w1) of
           None \<Rightarrow> (Inl (DownstreamFailure ''no such user row''), w1)
         | Some u \<Rightarrow> (Inr u, w1))"

text \<open>
  Modelled from the spec: how the store keeps the preferences is missing. They are
  ``stored as a sparse patch rather than a full object'', and what \<open>update\<close> upserts is a
  ``patch relative to current stored preferences'': a field the patch carries replaces
  the stored one, a field it does not carry keeps what is stored.
\<close>

definition merge_partial ::
  "'c UserPreferencesPartial \<Rightarrow> 'c UserPreferencesPartial \<Rightarrow> 'c UserPreferencesPartial" where
  "merge_partial patch stored =
     \<lparr>memories_enabled_opt =
        (case memories_enabled_opt patch of
           None \<Rightarrow> memories_enabled_opt stored | Some b \<Rightarrow> Some b),
      avatar_color_opt =
        (case avatar_color_opt patch of
           None \<Rightarrow> avatar_color_opt stored | Some c \<Rightarrow> Some c)\<rparr>"

text \<open>
  Modelled from the spec: \<open>upsertMetadata(id, {key, value})\<close> inserts the value under the
  key when the user's metadata has no item for the key, and applies it to the stored
  item when there is one.
\<close>

definition upsert_item ::
  "'k \<Rightarrow> 'c UserPreferencesPartial \<Rightarrow> ('k \<times> 'c UserPreferencesPartial) list \<Rightarrow>
     ('k \<times> 'c UserPreferencesPartial) list" where
  "upsert_item k v kvs =
     (if k \<in> fst ` set kvs
      then map (\<lambda>(k', v'). if k' = k then (k', merge_partial v v') else (k', v')) kvs
      else kvs @ [(k, v)])"

text \<open>
  Modelled from the spec: \<open>upsertMetadata\<close> is missing. The upsert goes to the metadata of
  the user with the given id.
\<close>

definition userRepository_upsertMetadata ::
  "string \<Rightarrow> UserMetadataKey \<Rightarrow> 'c UserPreferencesPartial \<Rightarrow> 'c World \<Rightarrow> 'c World" where
  "userRepository_upsertMetadata i k v w =
     called (UserUpsertMetadata i k v)
       (w\<lparr>users := map (\<lambda>u. if userId u = i
                              then u\<lparr>metadata := upsert_item k v (metadata u)\<rparr> else u)
                        (users w)\<rparr>)"

text \<open>
  Modelled from the spec: the usage-sync operation recomputes the stored usage of the
  user from the sizes of the assets the user owns.
\<close>

definition userRepository_syncUsage :: "string \<Rightarrow> 'c World \<Rightarrow> 'c World" where
  "userRepository_syncUsage i w =
     called (UserSyncUsage i)
       (w\<lparr>users := map (\<lambda>u. if userId u = i
                              then u\<lparr>quotaUsageInBytes :=
                                       sum_list (map fileSizeInByte
                                         (filter (\<lambda>a. assetOwnerId a = i) (assets w)))\<rparr>
                              else u)
                        (users w)\<rparr>)"

subsection \<open>Album store\<close>

text \<open>
  Modelled from the spec: the \<open>IAlbumRepository\<close> implementation is missing. ``Supports
  cascading soft-delete and restore of all albums owned by a user.'' \<open>softDeleteAll(id)\<close>
  marks every album owned by the user as deleted now.
\<close>

definition albumRepository_softDeleteAll :: "string \<Rightarrow> 'c World \<Rightarrow> 'c World" where
  "albumRepository_softDeleteAll i w =
     called (AlbumSoftDeleteAll i)
       (w\<lparr>albums := map (\<lambda>a. if ownerId a = i then a\<lparr>albumDeletedAt := Some (clock w)\<rparr> else a)
                         (albums w)\<rparr>)"

text \<open>
  Modelled from the spec: \<open>restoreAll(id)\<close> is missing. It restores all albums owned by the
  user: none of them is soft-deleted afterwards.
\<close>

definition albumRepository_restoreAll :: "string \<Rightarrow> 'c World \<Rightarrow> 'c World" where
  "albumRepository_restoreAll i w =
     called (AlbumRestoreAll i)
       (w\<lparr>albums := map (\<lambda>a. if ownerId a = i then a\<lparr>albumDeletedAt := None\<rparr> else a)
                         (albums w)\<rparr>)"

subsection \<open>Job queue\<close>

text \<open>
  Modelled from the spec: the \<open>IJobRepository\<close> implementation is missing. ``Accepts
  fire-and-forget work items.''
\<close>

definition jobRepository_queue :: "JobItem \<Rightarrow> 'c World \<Rightarrow> 'c World" where
  "jobRepository_queue item w = called (JobQueue item) (w\<lparr>jobs := jobs w @ [item]\<rparr>)"

subsection \<open>Response mapping\<close>

text \<open>
  Modelled from the spec: \<open>mapUser\<close> is missing. The standard view shows the identity of
  the user and the fields the tests of the endpoints read from it.
\<close>

definition mapUser :: "'c UserEntity \<Rightarrow> UserResponseDto" where
  "mapUser u =
     \<lparr>res_id = userId u, res_email = email u, res_name = name u, res_isAdmin = isAdmin u,
      res_shouldChangePassword = shouldChangePassword u, res_deletedAt = deletedAt u\<rparr>"

text \<open>
  Modelled from the spec: \<open>mapUserAdmin\<close> is missing. The admin view ``includes fields not
  exposed in the non-admin view, e.g., quota, storage usage, status''.
\<close>

definition mapUserAdmin :: "'c UserEntity \<Rightarrow> UserAdminResponseDto" where
  "mapUserAdmin u =
     UserResponseDto.extend (mapUser u)
       (UserAdminResponseDto.fields (status u) (quotaSizeInBytes u) (quotaUsageInBytes u))"

subsection \<open>Preference utilities\<close>

text \<open>
  Modelled from the spec: \<open>getPreferences\<close> and \<open>getPreferencesPartial\<close> are missing.
  ``Effective preferences: the merge of stored preference overrides with system
  defaults.'' The defaults are not given by the specification; they are the first
  argument here, read from the world by the callers.
\<close>

definition getPreferences :: "'c UserPreferences \<Rightarrow> 'c UserEntity \<Rightarrow> 'c UserPreferences" where
  "getPreferences d u =
     (case map_of (metadata u) PREFERENCES of
        None \<Rightarrow> d
      | Some p \<Rightarrow>
          \<lparr>memories_enabled =
             (case memories_enabled_opt p of None \<Rightarrow> memories_enabled d | Some b \<Rightarrow> b),
           avatar_color =
             (case avatar_color_opt p of None \<Rightarrow> avatar_color d | Some c \<Rightarrow> c)\<rparr>)"

text \<open>
  Modelled from the spec: ``compute the minimal preferences patch relative to current
  stored preferences'', that is ``diff against previous effective preferences, persist
  only the diff'': a field is in the patch exactly when its new value is not the user's
  current effective value.
\<close>

definition getPreferencesPartial ::
  "'c UserPreferences \<Rightarrow> 'c UserEntity \<Rightarrow> 'c UserPreferences \<Rightarrow> 'c UserPreferencesPartial" where
  "getPreferencesPartial d u newPreferences =
     (let current = getPreferences d u
      in \<lparr>memories_enabled_opt =
             (if memories_enabled newPreferences = memories_enabled current then None
              else Some (memories_enabled newPreferences)),
           avatar_color_opt =
             (if avatar_color newPreferences = avatar_color current then None
              else Some (avatar_color newPreferences))\<rparr>)"

subsection \<open>User core\<close>

text \<open>
  Modelled from the spec: \<open>UserCore.createUser\<close> is missing. ``Construct a new user from
  the command (email, password, name, quota); password hashing happens inside the User
  Store/Core collaborator''; the user is created ``ACTIVE, deletedAt = null''; ``any
  failure constructing/persisting the user (e.g., duplicate email) propagates as a
  client-facing bad-request-class error''. A user created without an explicit
  \<open>shouldChangePassword\<close> must change the password, and is never an admin, as the tests of
  \<^verbatim>\<open>POST /admin/users\<close> expect.
\<close>

definition userCore_createUser ::
  "UserCreateDto \<Rightarrow> 'c World \<Rightarrow> (error + 'c UserEntity) \<times> 'c World" where
  "userCore_createUser dto w =
     (let w1 = called (CoreCreateUser dto) w
      in if new_email dto \<in> set (map email (users w1))
         then (Inl (BadRequestException ''User exists''), w1)
         else (case uuids w1 of
                 [] \<Rightarrow> (Inl (DownstreamFailure ''no identifier''), w1)
               | i # ids \<Rightarrow>
                   let u = \<lparr>userId = i, email = new_email dto, name = new_name dto,
                            password = Bcrypt (new_password dto), isAdmin = False,
                            status = ACTIVE, quotaSizeInBytes = new_quotaSizeInBytes dto,
                            quotaUsageInBytes = 0,
                            shouldChangePassword =
                              (case new_shouldChangePassword dto of None \<Rightarrow> True | Some b \<Rightarrow> b),
                            deletedAt = None, metadata = []\<rparr>
                   in (Inr u, w1\<lparr>users := users w1 @ [u], uuids := ids\<rparr>)))"

text \<open>
  Modelled from the spec: \<open>UserCore.updateUser\<close> is missing. It ``additionally enforces
  field-level authorization rules (e.g., whether the acting principal may grant admin
  rights) -- those rules are external'', then applies ``the remaining patch fields (name,
  email, quota, isAdmin, etc.)'' through the store. The legacy preference keys are no
  columns of the user; the call records the command as it was passed.
\<close>

definition userCore_updateUser ::
  "'c UserEntity \<Rightarrow> string \<Rightarrow> 'c UserAdminUpdateDto \<Rightarrow> 'c World \<Rightarrow>
     (error + 'c UserEntity) \<times> 'c World" where
  "userCore_updateUser authUser i dto w =
     (let w1 = called (CoreUpdateUser authUser i dto) w
      in case rules w1 authUser i dto of
           Some e \<Rightarrow> (Inl e, w1)
         | None \<Rightarrow>
             userRepository_update i
               \<lparr>set_email = upd_email dto, set_name = upd_name dto,
                set_password = map_option Bcrypt (upd_password dto),
                set_isAdmin = upd_isAdmin dto, set_status = None,
                set_quotaSizeInBytes = upd_quotaSizeInBytes dto,
                set_shouldChangePassword = upd_shouldChangePassword dto,
                set_deletedAt = None\<rparr> w1)"

section \<open>The service\<close>

definition findOrFail ::
  "string \<Rightarrow> UserFindOptions \<Rightarrow> 'c World \<Rightarrow> (error + 'c UserEntity) \<times> 'c World" where
  "findOrFail i options w =
     (case userRepository_get i options w of
        (None, w1) \<Rightarrow> (Inl (BadRequestException ''User not found''), w1)
      | (Some found, w1) \<Rightarrow> (Inr found, w1))"

definition search ::
  "'c AuthDto \<Rightarrow> UserAdminSearchDto \<Rightarrow> 'c World \<Rightarrow>
     (error + UserAdminResponseDto list) \<times> 'c World" where
  "search auth dto w =
     (case userRepository_getList (search_withDeleted dto) w of
        (found, w1) \<Rightarrow> (Inr (map mapUserAdmin found), w1))"

definition create ::
  "UserAdminCreateDto \<Rightarrow> 'c World \<Rightarrow> (error + UserResponseDto) \<times> 'c World" where
  "create dto w =
     (let memoriesEnabled = new_memoriesEnabled dto;
          notify = new_notify dto;
          rest = UserCreateDto.truncate dto
      in case userCore_createUser rest w of
           (Inl e, w1) \<Rightarrow> (Inl e, w1)
         | (Inr created, w1) \<Rightarrow>
             (case (if memoriesEnabled = Some False
                    then findOrFail (userId created) \<lparr>withDeleted = None\<rparr>
                           (userRepository_upsertMetadata (userId created) PREFERENCES
                              \<lparr>memories_enabled_opt = Some False, avatar_color_opt = None\<rparr> w1)
                    else (Inr created, w1)) of
                (Inl e, w2) \<Rightarrow> (Inl e, w2)
              | (Inr u, w2) \<Rightarrow>
                  let tempPassword =
                        (if shouldChangePassword u then Some (new_password rest) else None);
                      w3 = (if truthy notify
                            then jobRepository_queue
                                   (JobItem NOTIFY_SIGNUP (SignupData (userId u) tempPassword)) w2
                            else w2)
                  in (Inr (mapUser u), w3)))"

text \<open>
  \<open>delete dto.memoriesEnabled\<close> and \<open>delete dto.avatarColor\<close> mutate the command that is
  later handed to the user core: the command is threaded through the two steps together
  with the preferences being overlaid.
\<close>

definition update ::
  "'c AuthDto \<Rightarrow> string \<Rightarrow> 'c UserAdminUpdateDto \<Rightarrow> 'c World \<Rightarrow>
     (error + UserResponseDto) \<times> 'c World" where
  "update auth i dto w =
     (case findOrFail i \<lparr>withDeleted = None\<rparr> w of
        (Inl e, w1) \<Rightarrow> (Inl e, w1)
      | (Inr found, w1) \<Rightarrow>
          let w2 = (if truthy_number (upd_quotaSizeInBytes dto)
                       \<and> Some (quotaSizeInBytes found) \<noteq> upd_quotaSizeInBytes dto
                    then userRepository_syncUsage i w1 else w1);
              (dto3, w3) =
                (if upd_memoriesEnabled dto \<noteq> None \<or> upd_avatarColor dto \<noteq> None
                 then
                   let newPreferences = getPreferences (defaults w2) found;
                       (newPreferences1, dto1) =
                         (case upd_memoriesEnabled dto of
                            Some b \<Rightarrow> (newPreferences\<lparr>memories_enabled := b\<rparr>,
                                       dto\<lparr>upd_memoriesEnabled := None\<rparr>)
                          | None \<Rightarrow> (newPreferences, dto));
                       (newPreferences2, dto2) =
                         (case upd_avatarColor dto1 of
                            Some c \<Rightarrow> (newPreferences1\<lparr>avatar_color := c\<rparr>,
                                       dto1\<lparr>upd_avatarColor := None\<rparr>)
                          | None \<Rightarrow> (newPreferences1, dto1))
                   in (dto2,
                       userRepository_upsertMetadata i PREFERENCES
                         (getPreferencesPartial (defaults w2) found newPreferences2) w2)
                 else (dto, w2))
          in (case userCore_updateUser (user auth) i dto3 w3 of
                (Inl e, w4) \<Rightarrow> (Inl e, w4)
              | (Inr updatedUser, w4) \<Rightarrow> (Inr (mapUser updatedUser), w4)))"

definition delete ::
  "'c AuthDto \<Rightarrow> string \<Rightarrow> UserAdminDeleteDto \<Rightarrow> 'c World \<Rightarrow>
     (error + UserResponseDto) \<times> 'c World" where
  "delete auth i dto w =
     (case findOrFail i \<lparr>withDeleted = None\<rparr> w of
        (Inl e, w1) \<Rightarrow> (Inl e, w1)
      | (Inr found, w1) \<Rightarrow>
          if isAdmin found then (Inl (ForbiddenException ''Cannot delete admin user''), w1)
          else
            let w2 = albumRepository_softDeleteAll i w1;
                status' = (if truthy (force dto) then REMOVING else DELETED)
            in (case userRepository_update i
                       (no_columns\<lparr>set_status := Some status',
                                   set_deletedAt := Some (Some (clock w2))\<rparr>) w2 of
                  (Inl e, w3) \<Rightarrow> (Inl e, w3)
                | (Inr u, w3) \<Rightarrow>
                    let w4 = (if truthy (force dto)
                              then jobRepository_queue
                                     (JobItem USER_DELETION (DeletionData (userId u) (force dto))) w3
                              else w3)
                    in (Inr (mapUser u), w4)))"

definition restore ::
  "'c AuthDto \<Rightarrow> string \<Rightarrow> 'c World \<Rightarrow> (error + UserResponseDto) \<times> 'c World" where
  "restore auth i w =
     (case findOrFail i \<lparr>withDeleted = Some True\<rparr> w of
        (Inl e, w1) \<Rightarrow> (Inl e, w1)
      | (Inr found, w1) \<Rightarrow>
          let w2 = albumRepository_restoreAll i w1
          in (case userRepository_update i
                     (no_columns\<lparr>set_deletedAt := Some None, set_status := Some ACTIVE\<rparr>) w2 of
                (Inl e, w3) \<Rightarrow> (Inl e, w3)
              | (Inr u, w3) \<Rightarrow> (Inr (mapUser u), w3)))"

section \<open>Notions used to state the properties\<close>

text \<open>The calls an operation made: those recorded in \<open>w'\<close> beyond the ones of \<open>w\<close>.\<close>

definition new_calls :: "'c World \<Rightarrow> 'c World \<Rightarrow> 'c Call list" where
  "new_calls w w' = drop (length (calls w)) (calls w')"

definition is_syncUsage :: "'c Call \<Rightarrow> bool" where
  "is_syncUsage c = (case c of UserSyncUsage i \<Rightarrow> True | _ \<Rightarrow> False)"


definition is_updateUser :: "'c Call \<Rightarrow> bool" where
  "is_updateUser c = (case c of CoreUpdateUser a i d \<Rightarrow> True | _ \<Rightarrow> False)"

text \<open>The update command \<open>{}\<close>, which carries no field.\<close>

definition no_changes :: "'c UserAdminUpdateDto" where
  "no_changes =
     \<lparr>upd_email = None, upd_password = None, upd_name = None, upd_isAdmin = None,
      upd_shouldChangePassword = None, upd_quotaSizeInBytes = None,
      upd_memoriesEnabled = None, upd_avatarColor = None\<rparr>"

text \<open>
  The specification's words for the legacy preference shortcuts: ``derive the user's
  current effective preferences, overlay the new value(s)'', then ``diff against previous
  effective preferences, persist only the diff''.
\<close>

definition overlay :: "'c UserAdminUpdateDto \<Rightarrow> 'c UserPreferences \<Rightarrow> 'c UserPreferences" where
  "overlay dto current =
     \<lparr>memories_enabled =
        (case upd_memoriesEnabled dto of None \<Rightarrow> memories_enabled current | Some b \<Rightarrow> b),
      avatar_color =
        (case upd_avatarColor dto of None \<Rightarrow> avatar_color current | Some c \<Rightarrow> c)\<rparr>"

definition minimal_diff :: "'c UserPreferences \<Rightarrow> 'c UserPreferences \<Rightarrow> 'c UserPreferencesPartial" where
  "minimal_diff new current =
     \<lparr>memories_enabled_opt =
        (if memories_enabled new = memories_enabled current then None
         else Some (memories_enabled new)),
      avatar_color_opt =
        (if avatar_color new = avatar_color current then None else Some (avatar_color new))\<rparr>"

text \<open>
  The invariant of the user record: \<open>deletedAt\<close> is not null exactly when the status is
  \<open>DELETED\<close> or \<open>REMOVING\<close>. A patch respects it when it writes neither of the two
  columns, or both with values that agree.
\<close>

definition status_consistent :: "'c UserEntity \<Rightarrow> bool" where
  "status_consistent u = ((deletedAt u \<noteq> None) = (status u = DELETED \<or> status u = REMOVING))"

definition store_consistent :: "'c World \<Rightarrow> bool" where
  "store_consistent w = list_all status_consistent (users w)"

definition patch_consistent :: "UserPatch \<Rightarrow> bool" where
  "patch_consistent p =
     (case (set_status p, set_deletedAt p) of
        (None, None) \<Rightarrow> True
      | (Some st, Some d) \<Rightarrow> (d \<noteq> None) = (st = DELETED \<or> st = REMOVING)
      | _ \<Rightarrow> False)"

definition write_consistent :: "'c Call \<Rightarrow> bool" where
  "write_consistent c = (case c of UserUpdate i p \<Rightarrow> patch_consistent p | _ \<Rightarrow> True)"

text \<open>
  A step from \<open>w\<close> to \<open>w'\<close> is sound when it keeps the store consistent, only adds to the
  record of calls, and every update it sent to the store respects the invariant.
\<close>

definition sound_step :: "'c World \<Rightarrow> 'c World \<Rightarrow> bool" where
  "sound_step w w' =
     ((store_consistent w \<longrightarrow> store_consistent w')
      \<and> take (length (calls w)) (calls w') = calls w
      \<and> list_all write_consistent (new_calls w w'))"

text \<open>
  The calls that write \<open>status\<close> or \<open>deletedAt\<close> to the user store.
\<close>

definition writes_lifecycle :: "'c Call \<Rightarrow> bool" where
  "writes_lifecycle c =
     (case c of UserUpdate i p \<Rightarrow> set_status p \<noteq> None \<or> set_deletedAt p \<noteq> None | _ \<Rightarrow> False)"


section \<open>An example world\<close>

text \<open>
  An admin, a user that was soft-deleted at time 5, and an active user with a quota.
\<close>

definition demo_admin :: "string UserEntity" where
  "demo_admin =
     \<lparr>userId = ''admin'', email = ''admin@immich.cloud'', name = ''Admin'',
      password = Bcrypt ''secret'', isAdmin = True, status = ACTIVE,
      quotaSizeInBytes = None, quotaUsageInBytes = 0, shouldChangePassword = False,
      deletedAt = None, metadata = []\<rparr>"

definition demo_user1 :: "string UserEntity" where
  "demo_user1 =
     \<lparr>userId = ''user1'', email = ''user1@immich.cloud'', name = ''User 1'',
      password = Bcrypt ''password1'', isAdmin = False, status = DELETED,
      quotaSizeInBytes = None, quotaUsageInBytes = 0, shouldChangePassword = True,
      deletedAt = Some 5, metadata = []\<rparr>"

definition demo_user2 :: "string UserEntity" where
  "demo_user2 =
     \<lparr>userId = ''user2'', email = ''user2@immich.cloud'', name = ''User 2'',
      password = Bcrypt ''password2'', isAdmin = False, status = ACTIVE,
      quotaSizeInBytes = Some 10, quotaUsageInBytes = 3, shouldChangePassword = True,
      deletedAt = None, metadata = []\<rparr>"

definition demo_world :: "string World" where
  "demo_world =
     \<lparr>users = [demo_admin, demo_user1, demo_user2],
      albums = [\<lparr>albumId = ''a1'', ownerId = ''user1'', albumDeletedAt = Some 5\<rparr>,
                \<lparr>albumId = ''a2'', ownerId = ''user2'', albumDeletedAt = None\<rparr>],
      assets = [\<lparr>assetOwnerId = ''user2'', fileSizeInByte = 4\<rparr>],
      jobs = [], clock = 7, uuids = [''user3'', ''user4''],
      defaults = \<lparr>memories_enabled = True, avatar_color = ''primary''\<rparr>,
      rules = (\<lambda>authUser i dto. None),
      calls = []\<rparr>"

definition demo_auth :: "string AuthDto" where
  "demo_auth = \<lparr>user = demo_admin\<rparr>"

definition demo_create :: UserAdminCreateDto where
  "demo_create =
     \<lparr>new_email = ''user3@immich.cloud'', new_password = ''Password123'',
      new_name = ''User 3'', new_quotaSizeInBytes = None, new_shouldChangePassword = None,
      new_memoriesEnabled = None, new_notify = Some True\<rparr>"



section \<open>Lemmas about the collaborators\<close>

lemma find_conj:
  "find P xs = Some u \<Longrightarrow> Q u \<Longrightarrow> find (\<lambda>x. P x \<and> Q x) xs = Some u"
  by (induction xs) (auto split: if_splits)

lemma find_userId: "find (\<lambda>x. userId x = i) us = Some u \<Longrightarrow> userId u = i"
  by (induction us) (auto split: if_splits)

lemma userId_apply_patch: "userId (apply_patch p u) = userId u"
  by (simp add: apply_patch_def)

lemma find_rewritten:
  assumes "\<And>x. userId (f x) = userId x"
  shows "find (\<lambda>x. userId x = i) (map (\<lambda>x. if userId x = i then f x else x) us)
           = map_option f (find (\<lambda>x. userId x = i) us)"
  by (induction us) (auto simp: assms)

lemma find_patched:
  "find (\<lambda>u. userId u = i) (map (\<lambda>u. if userId u = i then apply_patch p u else u) us)
     = map_option (apply_patch p) (find (\<lambda>u. userId u = i) us)"
  by (induction us) (auto simp: userId_apply_patch)

lemma userRepository_update_found:
  "find (\<lambda>u. userId u = i) (users w) = Some u \<Longrightarrow>
   userRepository_update i p w =
     (Inr (apply_patch p u),
      called (UserUpdate i p)
        (w\<lparr>users := map (\<lambda>u. if userId u = i then apply_patch p u else u) (users w)\<rparr>))"
  by (simp add: userRepository_update_def Let_def called_def find_patched)

lemma findOrFail_visible:
  "find (\<lambda>u. userId u = i) (users w) = Some u \<Longrightarrow> visible (withDeleted opts) u \<Longrightarrow>
   findOrFail i opts w = (Inr u, called (UserGet i opts) w)"
  by (simp add: findOrFail_def userRepository_get_def find_conj)

lemma apply_status_patch:
  "apply_patch (no_columns\<lparr>set_status := Some st, set_deletedAt := Some d\<rparr>) u
     = u\<lparr>status := st, deletedAt := d\<rparr>"
  by (simp add: apply_patch_def no_columns_def)

lemma apply_restore_patch:
  "apply_patch (no_columns\<lparr>set_deletedAt := Some d, set_status := Some st\<rparr>) u
     = u\<lparr>status := st, deletedAt := d\<rparr>"
  by (simp add: apply_patch_def no_columns_def)

lemma find_None_userId:
  "list_all (\<lambda>u. userId u = i \<longrightarrow> \<not> P u) us \<Longrightarrow> find (\<lambda>x. userId x = i \<and> P x) us = None"
  by (induction us) auto

lemma find_None_absent:
  "find (\<lambda>x. userId x = i) us = None \<Longrightarrow> list_all (\<lambda>u. userId u = i \<longrightarrow> Q u) us"
  by (induction us) (auto split: if_splits)

lemma findOrFail_hidden:
  assumes "list_all (\<lambda>u. userId u = i \<longrightarrow> \<not> visible (withDeleted opts) u) (users w)"
  shows "findOrFail i opts w
           = (Inl (BadRequestException ''User not found''), called (UserGet i opts) w)"
  by (simp add: findOrFail_def userRepository_get_def find_None_userId[OF assms])

lemma restored_albums:
  "list_all (\<lambda>a. ownerId a = i \<longrightarrow> albumDeletedAt a = None)
     (map (\<lambda>a. if ownerId a = i then a\<lparr>albumDeletedAt := None\<rparr> else a) xs)"
  by (induction xs) simp_all

lemma findOrFail_found:
  assumes "find (\<lambda>x. userId x = i) (users w) = Some u"
    and "withDeleted opts = Some True \<or> deletedAt u = None"
  shows "findOrFail i opts w = (Inr u, called (UserGet i opts) w)"
  using assms(2) by (intro findOrFail_visible[OF assms(1)]) (simp add: visible_def truthy_def)

lemma delete_found:
  assumes "find (\<lambda>x. userId x = i) (users w) = Some u"
    and "deletedAt u = None" and "\<not> isAdmin u"
  shows "delete auth i dto w =
    (Inr (mapUser (u\<lparr>status := (if force dto = Some True then REMOVING else DELETED),
                      deletedAt := Some (clock w)\<rparr>)),
     w\<lparr>albums := map (\<lambda>a. if ownerId a = i then a\<lparr>albumDeletedAt := Some (clock w)\<rparr> else a)
                      (albums w),
       users := map (\<lambda>x. if userId x = i
                           then x\<lparr>status := (if force dto = Some True then REMOVING else DELETED),
                                  deletedAt := Some (clock w)\<rparr>
                           else x) (users w),
       jobs := jobs w @ (if force dto = Some True
                         then [JobItem USER_DELETION (DeletionData i (Some True))] else []),
       calls := calls w @
         [UserGet i \<lparr>withDeleted = None\<rparr>, AlbumSoftDeleteAll i,
          UserUpdate i
            (no_columns\<lparr>set_status := Some (if force dto = Some True then REMOVING else DELETED),
                        set_deletedAt := Some (Some (clock w))\<rparr>)]
         @ (if force dto = Some True
            then [JobQueue (JobItem USER_DELETION (DeletionData i (Some True)))] else [])\<rparr>)"
proof -
  let ?opts = "\<lparr>withDeleted = None\<rparr>"
  have f: "findOrFail i ?opts w = (Inr u, called (UserGet i ?opts) w)"
    using assms(2) by (intro findOrFail_found[OF assms(1)]) simp
  have u2: "find (\<lambda>x. userId x = i)
              (users (albumRepository_softDeleteAll i (called (UserGet i ?opts) w))) = Some u"
    using assms(1) by (simp add: albumRepository_softDeleteAll_def called_def)
  have c2: "clock (albumRepository_softDeleteAll i (called (UserGet i ?opts) w)) = clock w"
    by (simp add: albumRepository_softDeleteAll_def called_def)
  show ?thesis
  proof (cases "force dto = Some True")
    case True
    show ?thesis
      unfolding delete_def f
      using assms(3) find_userId[OF assms(1)] True
      apply (simp only: Let_def prod.case sum.case if_False if_True truthy_def c2
          userRepository_update_found[OF u2] apply_status_patch)
      apply (simp add: albumRepository_softDeleteAll_def called_def jobRepository_queue_def)
      done
  next
    case False
    show ?thesis
      unfolding delete_def f
      using assms(3) find_userId[OF assms(1)] False
      apply (simp only: Let_def prod.case sum.case if_False if_True truthy_def c2
          userRepository_update_found[OF u2] apply_status_patch)
      apply (simp add: albumRepository_softDeleteAll_def called_def jobRepository_queue_def)
      done
  qed
qed

lemma restore_found:
  assumes "find (\<lambda>x. userId x = i) (users w) = Some u"
  shows "restore auth i w =
    (Inr (mapUser (u\<lparr>status := ACTIVE, deletedAt := None\<rparr>)),
     w\<lparr>albums := map (\<lambda>a. if ownerId a = i then a\<lparr>albumDeletedAt := None\<rparr> else a) (albums w),
       users := map (\<lambda>x. if userId x = i then x\<lparr>status := ACTIVE, deletedAt := None\<rparr> else x)
                    (users w),
       calls := calls w @
         [UserGet i \<lparr>withDeleted = Some True\<rparr>, AlbumRestoreAll i,
          UserUpdate i (no_columns\<lparr>set_deletedAt := Some None, set_status := Some ACTIVE\<rparr>)]\<rparr>)"
proof -
  let ?opts = "\<lparr>withDeleted = Some True\<rparr>"
  have f: "findOrFail i ?opts w = (Inr u, called (UserGet i ?opts) w)"
    by (intro findOrFail_found[OF assms]) simp
  have u2: "find (\<lambda>x. userId x = i)
              (users (albumRepository_restoreAll i (called (UserGet i ?opts) w))) = Some u"
    using assms by (simp add: albumRepository_restoreAll_def called_def)
  show ?thesis
    unfolding restore_def f
    apply (simp only: Let_def prod.case sum.case userRepository_update_found[OF u2]
        apply_restore_patch)
    apply (simp add: albumRepository_restoreAll_def called_def)
    done
qed

lemma demo_users:
  "users demo_world = [demo_admin, demo_user1, demo_user2]"
  by (simp add: demo_world_def)

lemma demo_found:
  "fst (userRepository_get ''user2'' \<lparr>withDeleted = None\<rparr> demo_world) = Some demo_user2"
  by (simp add: userRepository_get_def demo_users demo_admin_def demo_user1_def demo_user2_def
      visible_def truthy_def)

subsection \<open>What each collaborator leaves unchanged\<close>

lemma called_fields [simp]:
  "users (called c w) = users w" "albums (called c w) = albums w"
  "assets (called c w) = assets w" "jobs (called c w) = jobs w"
  "clock (called c w) = clock w" "uuids (called c w) = uuids w"
  "defaults (called c w) = defaults w" "rules (called c w) = rules w"
  "calls (called c w) = calls w @ [c]"
  by (simp_all add: called_def)

lemma syncUsage_fields [simp]:
  "jobs (userRepository_syncUsage i w) = jobs w"
  "defaults (userRepository_syncUsage i w) = defaults w"
  "rules (userRepository_syncUsage i w) = rules w"
  "calls (userRepository_syncUsage i w) = calls w @ [UserSyncUsage i]"
  by (simp_all add: userRepository_syncUsage_def)

lemma upsertMetadata_fields [simp]:
  "jobs (userRepository_upsertMetadata i k v w) = jobs w"
  "defaults (userRepository_upsertMetadata i k v w) = defaults w"
  "rules (userRepository_upsertMetadata i k v w) = rules w"
  "calls (userRepository_upsertMetadata i k v w) = calls w @ [UserUpsertMetadata i k v]"
  by (simp_all add: userRepository_upsertMetadata_def)

lemma update_fields [simp]:
  "jobs (snd (userRepository_update i p w)) = jobs w"
  "calls (snd (userRepository_update i p w)) = calls w @ [UserUpdate i p]"
  by (simp_all add: userRepository_update_def Let_def split: option.split)

lemma updateUser_fields [simp]:
  "jobs (snd (userCore_updateUser a i d w)) = jobs w"
  "calls (snd (userCore_updateUser a i d w)) =
     calls w @ CoreUpdateUser a i d #
       (case rules w a i d of
          Some e \<Rightarrow> []
        | None \<Rightarrow> [UserUpdate i
             \<lparr>set_email = upd_email d, set_name = upd_name d,
              set_password = map_option Bcrypt (upd_password d),
              set_isAdmin = upd_isAdmin d, set_status = None,
              set_quotaSizeInBytes = upd_quotaSizeInBytes d,
              set_shouldChangePassword = upd_shouldChangePassword d,
              set_deletedAt = None\<rparr>])"
  by (simp_all add: userCore_updateUser_def Let_def split: option.split)

lemma findOrFail_fields [simp]:
  "snd (findOrFail i opts w) = called (UserGet i opts) w"
  by (simp add: findOrFail_def userRepository_get_def split: option.split)

lemma createUser_fields [simp]:
  "jobs (snd (userCore_createUser dto w)) = jobs w"
  by (simp add: userCore_createUser_def Let_def split: list.split)

lemma getPreferencesPartial_diff:
  "getPreferencesPartial d u new = minimal_diff new (getPreferences d u)"
  by (simp add: getPreferencesPartial_def minimal_diff_def Let_def)

lemma preferences_updates:
  "p\<lparr>memories_enabled := b\<rparr> = \<lparr>memories_enabled = b, avatar_color = avatar_color p\<rparr>"
  "p\<lparr>avatar_color := c\<rparr> = \<lparr>memories_enabled = memories_enabled p, avatar_color = c\<rparr>"
  "p\<lparr>memories_enabled := b, avatar_color := c\<rparr> = \<lparr>memories_enabled = b, avatar_color = c\<rparr>"
  by (cases p; simp)+

text \<open>What \<open>update\<close> does once the user is found, step by step.\<close>

lemma update_found:
  assumes "findOrFail i \<lparr>withDeleted = None\<rparr> w = (Inr u, w1)"
  shows "update auth i dto w =
    (let w2 = (if truthy_number (upd_quotaSizeInBytes dto)
                  \<and> Some (quotaSizeInBytes u) \<noteq> upd_quotaSizeInBytes dto
               then userRepository_syncUsage i w1 else w1);
         w3 = (if upd_memoriesEnabled dto \<noteq> None \<or> upd_avatarColor dto \<noteq> None
               then userRepository_upsertMetadata i PREFERENCES
                      (getPreferencesPartial (defaults w2) u
                         (overlay dto (getPreferences (defaults w2) u))) w2
               else w2)
     in case userCore_updateUser (user auth) i
               (dto\<lparr>upd_memoriesEnabled := None, upd_avatarColor := None\<rparr>) w3 of
          (Inl e, w4) \<Rightarrow> (Inl e, w4)
        | (Inr updatedUser, w4) \<Rightarrow> (Inr (mapUser updatedUser), w4))"
proof (cases dto)
  case (fields e p n a s q m c)
  show ?thesis
    unfolding update_def assms fields
    by (cases m; cases c) (simp_all add: Let_def overlay_def preferences_updates)
qed

lemma snd_mapped:
  "snd (case x of (Inl e, w) \<Rightarrow> (Inl e, w) | (Inr v, w) \<Rightarrow> (Inr (f v), w)) = snd x"
  by (cases x; cases "fst x") auto

lemma update_calls:
  assumes "fst (userRepository_get i \<lparr>withDeleted = None\<rparr> w) = Some u"
  shows "new_calls w (snd (update auth i dto w)) =
     UserGet i \<lparr>withDeleted = None\<rparr> #
     (if truthy_number (upd_quotaSizeInBytes dto)
         \<and> Some (quotaSizeInBytes u) \<noteq> upd_quotaSizeInBytes dto
      then [UserSyncUsage i] else []) @
     (if upd_memoriesEnabled dto \<noteq> None \<or> upd_avatarColor dto \<noteq> None
      then [UserUpsertMetadata i PREFERENCES
              (minimal_diff (overlay dto (getPreferences (defaults w) u))
                 (getPreferences (defaults w) u))]
      else []) @
     CoreUpdateUser (user auth) i (dto\<lparr>upd_memoriesEnabled := None, upd_avatarColor := None\<rparr>) #
     (case rules w (user auth) i (dto\<lparr>upd_memoriesEnabled := None, upd_avatarColor := None\<rparr>) of
        Some e \<Rightarrow> []
      | None \<Rightarrow>
          [UserUpdate i
             \<lparr>set_email = upd_email dto, set_name = upd_name dto,
              set_password = map_option Bcrypt (upd_password dto),
              set_isAdmin = upd_isAdmin dto, set_status = None,
              set_quotaSizeInBytes = upd_quotaSizeInBytes dto,
              set_shouldChangePassword = upd_shouldChangePassword dto,
              set_deletedAt = None\<rparr>])"
proof -
  let ?opts = "\<lparr>withDeleted = None\<rparr>"
  have f: "findOrFail i ?opts w = (Inr u, called (UserGet i ?opts) w)"
    using assms by (simp add: findOrFail_def userRepository_get_def)
  show ?thesis
    unfolding new_calls_def update_found[OF f] Let_def snd_mapped
    by (cases "rules w (user auth) i (dto\<lparr>upd_memoriesEnabled := None, upd_avatarColor := None\<rparr>)")
      (simp_all add: getPreferencesPartial_diff)
qed

subsection \<open>Every step keeps status and deletedAt consistent\<close>

lemma sound_step_refl: "sound_step w w"
  by (simp add: sound_step_def new_calls_def)

lemma sound_step_trans:
  assumes "sound_step w w1" and "sound_step w1 w2"
  shows "sound_step w w2"
proof -
  have a: "calls w1 = calls w @ new_calls w w1"
    using assms(1) unfolding sound_step_def new_calls_def
    by (metis append_take_drop_id)
  have b: "calls w2 = calls w1 @ new_calls w1 w2"
    using assms(2) unfolding sound_step_def new_calls_def
    by (metis append_take_drop_id)
  have c: "calls w2 = calls w @ (new_calls w w1 @ new_calls w1 w2)"
    using a b by simp
  have d: "new_calls w w2 = new_calls w w1 @ new_calls w1 w2"
    unfolding new_calls_def[of w w2] c by simp
  have e: "take (length (calls w)) (calls w2) = calls w"
    unfolding c by simp
  show ?thesis
    using assms d e by (simp add: sound_step_def)
qed

lemma sound_stepI:
  assumes "store_consistent w \<Longrightarrow> store_consistent w'"
    and "calls w' = calls w @ cs" and "list_all write_consistent cs"
  shows "sound_step w w'"
  using assms by (simp add: sound_step_def new_calls_def)

lemma list_all_rewritten:
  assumes "\<And>x. P x \<Longrightarrow> P (f x)"
  shows "list_all P xs \<Longrightarrow> list_all P (map (\<lambda>x. if c x then f x else x) xs)"
  by (induction xs) (auto simp: assms)

lemma sound_called: "write_consistent c \<Longrightarrow> sound_step w (called c w)"
  by (rule sound_stepI[where cs = "[c]"]) (simp_all add: store_consistent_def)

lemma sound_queue: "sound_step w (jobRepository_queue item w)"
  by (rule sound_stepI[where cs = "[JobQueue item]"])
    (simp_all add: jobRepository_queue_def store_consistent_def write_consistent_def)

lemma sound_softDeleteAll: "sound_step w (albumRepository_softDeleteAll i w)"
  by (rule sound_stepI[where cs = "[AlbumSoftDeleteAll i]"])
    (simp_all add: albumRepository_softDeleteAll_def store_consistent_def write_consistent_def)

lemma sound_restoreAll: "sound_step w (albumRepository_restoreAll i w)"
  by (rule sound_stepI[where cs = "[AlbumRestoreAll i]"])
    (simp_all add: albumRepository_restoreAll_def store_consistent_def write_consistent_def)

lemma sound_syncUsage: "sound_step w (userRepository_syncUsage i w)"
proof (rule sound_stepI[where cs = "[UserSyncUsage i]"])
  assume "store_consistent w"
  then show "store_consistent (userRepository_syncUsage i w)"
    unfolding store_consistent_def userRepository_syncUsage_def
    by (simp, intro list_all_rewritten) (simp_all add: status_consistent_def)
qed (simp_all add: write_consistent_def)

lemma sound_upsertMetadata: "sound_step w (userRepository_upsertMetadata i k v w)"
proof (rule sound_stepI[where cs = "[UserUpsertMetadata i k v]"])
  assume "store_consistent w"
  then show "store_consistent (userRepository_upsertMetadata i k v w)"
    unfolding store_consistent_def userRepository_upsertMetadata_def
    by (simp, intro list_all_rewritten) (simp_all add: status_consistent_def)
qed (simp_all add: write_consistent_def)

lemma sound_findOrFail: "sound_step w (snd (findOrFail i opts w))"
  by (simp add: sound_called write_consistent_def)

lemma sound_getList: "sound_step w (snd (userRepository_getList wd w))"
  by (simp add: userRepository_getList_def sound_called write_consistent_def)

lemma apply_patch_consistent:
  "patch_consistent p \<Longrightarrow> status_consistent u \<Longrightarrow> status_consistent (apply_patch p u)"
  by (auto simp: patch_consistent_def status_consistent_def apply_patch_def
      split: option.splits)

lemma sound_update:
  assumes "patch_consistent p"
  shows "sound_step w (snd (userRepository_update i p w))"
proof (rule sound_stepI[where cs = "[UserUpdate i p]"])
  assume "store_consistent w"
  then have "list_all status_consistent
               (map (\<lambda>u. if userId u = i then apply_patch p u else u) (users w))"
    unfolding store_consistent_def
    by (intro list_all_rewritten apply_patch_consistent[OF assms])
  then show "store_consistent (snd (userRepository_update i p w))"
    by (simp add: store_consistent_def userRepository_update_def Let_def split: option.split)
qed (simp_all add: write_consistent_def assms)

lemma sound_updateUser: "sound_step w (snd (userCore_updateUser a i d w))"
proof (cases "rules w a i d")
  case None
  have "sound_step (called (CoreUpdateUser a i d) w)
          (snd (userCore_updateUser a i d w))"
    using None
    by (simp add: userCore_updateUser_def Let_def sound_update patch_consistent_def)
  then show ?thesis
    by (rule sound_step_trans[OF sound_called, rotated]) (simp add: write_consistent_def)
next
  case (Some e)
  then show ?thesis
    by (simp add: userCore_updateUser_def Let_def sound_called write_consistent_def)
qed

lemma sound_createUser: "sound_step w (snd (userCore_createUser dto w))"
proof (rule sound_stepI[where cs = "[CoreCreateUser dto]"])
  assume "store_consistent w"
  then show "store_consistent (snd (userCore_createUser dto w))"
    by (simp add: userCore_createUser_def Let_def store_consistent_def status_consistent_def
        split: list.split)
qed (simp_all add: userCore_createUser_def Let_def write_consistent_def split: list.split)

lemma sound_search: "sound_step w (snd (search auth dto w))"
  using sound_getList[of w "search_withDeleted dto"]
  by (cases "userRepository_getList (search_withDeleted dto) w") (simp add: search_def)

lemma sound_restore: "sound_step w (snd (restore auth i w))"
proof -
  let ?opts = "\<lparr>withDeleted = Some True\<rparr>"
  let ?p = "no_columns\<lparr>set_deletedAt := Some None, set_status := Some ACTIVE\<rparr>"
  let ?w1 = "snd (findOrFail i ?opts w)"
  let ?w2 = "albumRepository_restoreAll i ?w1"
  let ?w3 = "snd (userRepository_update i ?p ?w2)"
  have p: "patch_consistent ?p"
    by (simp add: patch_consistent_def no_columns_def)
  have 1: "sound_step w ?w1"
    by (rule sound_findOrFail)
  have 3: "sound_step w ?w3"
    by (rule sound_step_trans[OF sound_step_trans[OF 1 sound_restoreAll] sound_update[OF p]])
  have "snd (restore auth i w) = ?w1 \<or> snd (restore auth i w) = ?w3"
    unfolding restore_def Let_def
    by (cases "findOrFail i ?opts w"; cases "fst (findOrFail i ?opts w)")
      (auto simp: snd_mapped split: prod.splits sum.splits)
  then show ?thesis
    using 1 3 by auto
qed

lemma sound_delete: "sound_step w (snd (delete auth i dto w))"
proof -
  let ?opts = "\<lparr>withDeleted = None\<rparr>"
  let ?w1 = "snd (findOrFail i ?opts w)"
  let ?w2 = "albumRepository_softDeleteAll i ?w1"
  let ?p = "no_columns\<lparr>set_status := Some (if truthy (force dto) then REMOVING else DELETED),
                        set_deletedAt := Some (Some (clock ?w2))\<rparr>"
  let ?w3 = "snd (userRepository_update i ?p ?w2)"
  have p: "patch_consistent ?p"
    by (simp add: patch_consistent_def no_columns_def)
  have 1: "sound_step w ?w1"
    by (rule sound_findOrFail)
  have 3: "sound_step w ?w3"
    by (rule sound_step_trans[OF sound_step_trans[OF 1 sound_softDeleteAll] sound_update[OF p]])
  have 4: "sound_step w (jobRepository_queue item ?w3)" for item
    by (rule sound_step_trans[OF 3 sound_queue])
  have "snd (delete auth i dto w) = ?w1 \<or> snd (delete auth i dto w) = ?w3
        \<or> (\<exists>item. snd (delete auth i dto w) = jobRepository_queue item ?w3)"
    unfolding delete_def Let_def
    by (cases "findOrFail i ?opts w"; cases "fst (findOrFail i ?opts w)")
      (auto split: prod.splits sum.splits)
  then show ?thesis
    using 1 3 4 by auto
qed

lemma sound_if: "sound_step w x \<Longrightarrow> sound_step w (if c then x else w)"
  by (simp add: sound_step_refl)

lemma sound_update_op: "sound_step w (snd (update auth i dto w))"
proof (cases "fst (findOrFail i \<lparr>withDeleted = None\<rparr> w)")
  case (Inl e)
  then have "snd (update auth i dto w) = snd (findOrFail i \<lparr>withDeleted = None\<rparr> w)"
    by (cases "findOrFail i \<lparr>withDeleted = None\<rparr> w") (simp add: update_def)
  then show ?thesis
    by (simp only: sound_findOrFail)
next
  case (Inr u)
  let ?w1 = "snd (findOrFail i \<lparr>withDeleted = None\<rparr> w)"
  let ?w2 = "if truthy_number (upd_quotaSizeInBytes dto)
                  \<and> Some (quotaSizeInBytes u) \<noteq> upd_quotaSizeInBytes dto
             then userRepository_syncUsage i ?w1 else ?w1"
  let ?w3 = "if upd_memoriesEnabled dto \<noteq> None \<or> upd_avatarColor dto \<noteq> None
             then userRepository_upsertMetadata i PREFERENCES
                    (getPreferencesPartial (defaults ?w2) u
                       (overlay dto (getPreferences (defaults ?w2) u))) ?w2
             else ?w2"
  have f: "findOrFail i \<lparr>withDeleted = None\<rparr> w = (Inr u, ?w1)"
    using Inr by (cases "findOrFail i \<lparr>withDeleted = None\<rparr> w") simp
  have 1: "sound_step w ?w1"
    by (rule sound_findOrFail)
  have 2: "sound_step ?w1 ?w2"
    by (rule sound_if[OF sound_syncUsage])
  have 3: "sound_step ?w2 ?w3"
    by (rule sound_if[OF sound_upsertMetadata])
  have 4: "sound_step w (snd (userCore_updateUser a i d ?w3))" for a d
    by (rule sound_step_trans[OF sound_step_trans[OF sound_step_trans[OF 1 2] 3]
          sound_updateUser])
  show ?thesis
    unfolding update_found[OF f] Let_def snd_mapped by (rule 4)
qed

lemma sound_create: "sound_step w (snd (create dto w))"
proof -
  let ?rest = "UserCreateDto.truncate dto"
  obtain r1 w1 where c: "userCore_createUser ?rest w = (r1, w1)"
    by (cases "userCore_createUser ?rest w")
  have 1: "sound_step w w1"
    using sound_createUser[of w ?rest] c by simp
  show ?thesis
  proof (cases r1)
    case (Inl e)
    then show ?thesis
      using 1 c by (simp add: create_def Let_def)
  next
    case (Inr created)
    let ?s = "if new_memoriesEnabled dto = Some False
              then findOrFail (userId created) \<lparr>withDeleted = None\<rparr>
                     (userRepository_upsertMetadata (userId created) PREFERENCES
                        \<lparr>memories_enabled_opt = Some False, avatar_color_opt = None\<rparr> w1)
              else (Inr created, w1)"
    obtain r2 w2 where s: "?s = (r2, w2)"
      by (cases ?s)
    have "sound_step w1 (snd ?s)"
      by (simp add: sound_step_refl sound_step_trans[OF sound_upsertMetadata sound_findOrFail]
          del: findOrFail_fields)
    then have 2: "sound_step w w2"
      using 1 s sound_step_trans by fastforce
    show ?thesis
    proof (cases r2)
      case (Inl e)
      then show ?thesis
        using 2 c Inr s by (simp add: create_def Let_def)
    next
      case u: (Inr u)
      have "sound_step w (if truthy (new_notify dto) then jobRepository_queue item w2 else w2)"
        for item
        using 2 sound_step_trans[OF 2 sound_queue] by simp
      then show ?thesis
        using c Inr s u by (simp add: create_def Let_def)
    qed
  qed
qed

subsection \<open>The rows of the user store after each collaborator\<close>

lemma users_fields [simp]:
  "users (userRepository_syncUsage i w)
     = map (\<lambda>u. if userId u = i
                 then u\<lparr>quotaUsageInBytes :=
                          sum_list (map fileSizeInByte
                            (filter (\<lambda>a. assetOwnerId a = i) (assets w)))\<rparr>
                 else u) (users w)"
  "users (userRepository_upsertMetadata i k v w)
     = map (\<lambda>u. if userId u = i then u\<lparr>metadata := upsert_item k v (metadata u)\<rparr> else u)
         (users w)"
  "users (snd (userRepository_update i p w))
     = map (\<lambda>u. if userId u = i then apply_patch p u else u) (users w)"
  "users (albumRepository_softDeleteAll i w) = users w"
  "users (albumRepository_restoreAll i w) = users w"
  "users (jobRepository_queue item w) = users w"
  by (simp_all add: userRepository_syncUsage_def userRepository_upsertMetadata_def
      userRepository_update_def albumRepository_softDeleteAll_def
      albumRepository_restoreAll_def jobRepository_queue_def Let_def split: option.split)

lemma more_fields [simp]:
  "calls (albumRepository_softDeleteAll i w) = calls w @ [AlbumSoftDeleteAll i]"
  "calls (albumRepository_restoreAll i w) = calls w @ [AlbumRestoreAll i]"
  "calls (jobRepository_queue item w) = calls w @ [JobQueue item]"
  "clock (albumRepository_softDeleteAll i w) = clock w"
  "calls (snd (userCore_createUser dto w)) = calls w @ [CoreCreateUser dto]"
  "calls (snd (userRepository_getList wd w)) = calls w @ [UserGetList wd]"
  by (simp_all add: albumRepository_softDeleteAll_def albumRepository_restoreAll_def
      jobRepository_queue_def userCore_createUser_def userRepository_getList_def Let_def
      split: list.split)













subsection \<open>What delete and restore write\<close>

lemma rows_rewritten:
  assumes "\<And>x. Q (f x)"
  shows "list_all (\<lambda>x. userId x = i \<longrightarrow> Q x) (map (\<lambda>x. if userId x = i then f x else x) xs)"
  by (induction xs) (simp_all add: assms)

lemma get_None_absent:
  assumes "fst (userRepository_get i \<lparr>withDeleted = Some True\<rparr> w) = None"
  shows "list_all (\<lambda>x. userId x = i \<longrightarrow> Q x) (users w)"
proof -
  have "find (\<lambda>x. userId x = i) (users w) = None"
    using assms by (simp add: userRepository_get_def visible_def truthy_def)
  then show ?thesis
    by (rule find_None_absent)
qed

lemma delete_resolved:
  assumes "fst (userRepository_get i \<lparr>withDeleted = None\<rparr> w) = Some u" and "\<not> isAdmin u"
  shows "users (snd (delete auth i dto w))
           = map (\<lambda>x. if userId x = i
                       then apply_patch
                              (no_columns\<lparr>set_status :=
                                            Some (if force dto = Some True then REMOVING else DELETED),
                                          set_deletedAt := Some (Some (clock w))\<rparr>) x
                       else x) (users w)"
    and "filter writes_lifecycle (new_calls w (snd (delete auth i dto w)))
           = [UserUpdate i
                (no_columns\<lparr>set_status :=
                              Some (if force dto = Some True then REMOVING else DELETED),
                            set_deletedAt := Some (Some (clock w))\<rparr>)]"
proof -
  let ?opts = "\<lparr>withDeleted = None\<rparr>"
  let ?p = "no_columns\<lparr>set_status := Some (if force dto = Some True then REMOVING else DELETED),
                        set_deletedAt := Some (Some (clock w))\<rparr>"
  let ?w2 = "albumRepository_softDeleteAll i (called (UserGet i ?opts) w)"
  let ?r = "userRepository_update i ?p ?w2"
  have f: "findOrFail i ?opts w = (Inr u, called (UserGet i ?opts) w)"
    using assms(1) by (simp add: findOrFail_def userRepository_get_def)
  have l: "writes_lifecycle (UserUpdate i (no_columns\<lparr>set_status := Some st, set_deletedAt := dd\<rparr>))"
    "\<not> writes_lifecycle (UserGet i ?opts)"
    "\<not> writes_lifecycle (AlbumSoftDeleteAll i)" "\<not> writes_lifecycle (JobQueue item)"
    for item st dd
    by (simp_all add: writes_lifecycle_def)
  obtain r3 w3 where r: "?r = (r3, w3)"
    by (cases ?r)
  have w3: "users w3 = map (\<lambda>x. if userId x = i then apply_patch ?p x else x) (users w)"
    "calls w3 = calls w @ [UserGet i ?opts, AlbumSoftDeleteAll i, UserUpdate i ?p]"
    using users_fields(3)[of i ?p ?w2] update_fields(2)[of i ?p ?w2] r by simp_all
  have d: "snd (delete auth i dto w)
             = (case r3 of
                  Inl e \<Rightarrow> w3
                | Inr u' \<Rightarrow>
                    if force dto = Some True
                    then jobRepository_queue
                           (JobItem USER_DELETION (DeletionData (userId u') (force dto))) w3
                    else w3)"
    unfolding delete_def f using assms(2) r
    by (cases r3) (simp_all add: Let_def truthy_def)
  show "users (snd (delete auth i dto w))
           = map (\<lambda>x. if userId x = i then apply_patch ?p x else x) (users w)"
    unfolding d using w3(1) by (cases r3) simp_all
  show "filter writes_lifecycle (new_calls w (snd (delete auth i dto w))) = [UserUpdate i ?p]"
    unfolding d new_calls_def by (cases r3) (simp_all add: w3(2) l)
qed

lemma delete_writes:
  "filter writes_lifecycle (new_calls w (snd (delete auth i dto w)))
     = (case fst (userRepository_get i \<lparr>withDeleted = None\<rparr> w) of
          None \<Rightarrow> []
        | Some u \<Rightarrow>
            if isAdmin u then []
            else [UserUpdate i
                    (no_columns\<lparr>set_status :=
                                  Some (if force dto = Some True then REMOVING else DELETED),
                                set_deletedAt := Some (Some (clock w))\<rparr>)])"
proof (cases "fst (userRepository_get i \<lparr>withDeleted = None\<rparr> w)")
  case None
  then show ?thesis
    by (simp add: delete_def findOrFail_def userRepository_get_def new_calls_def
        writes_lifecycle_def)
next
  case (Some u)
  show ?thesis
  proof (cases "isAdmin u")
    case True
    then show ?thesis
      using Some
      by (simp add: delete_def findOrFail_def userRepository_get_def new_calls_def
          writes_lifecycle_def)
  next
    case False
    then show ?thesis
      using Some delete_resolved(2)[OF Some False] by simp
  qed
qed

lemma delete_rows:
  assumes "fst (userRepository_get i \<lparr>withDeleted = None\<rparr> w) = Some u" and "\<not> isAdmin u"
  shows "list_all (\<lambda>x. userId x = i \<longrightarrow>
                     status x = (if force dto = Some True then REMOVING else DELETED)
                     \<and> deletedAt x = Some (clock w))
           (users (snd (delete auth i dto w)))"
  unfolding delete_resolved(1)[OF assms]
  by (rule rows_rewritten) (simp add: apply_status_patch)

lemma restore_resolved:
  assumes "fst (userRepository_get i \<lparr>withDeleted = Some True\<rparr> w) = Some u"
  shows "users (snd (restore auth i w))
           = map (\<lambda>x. if userId x = i
                       then apply_patch
                              (no_columns\<lparr>set_deletedAt := Some None, set_status := Some ACTIVE\<rparr>) x
                       else x) (users w)"
    and "filter writes_lifecycle (new_calls w (snd (restore auth i w)))
           = [UserUpdate i (no_columns\<lparr>set_deletedAt := Some None, set_status := Some ACTIVE\<rparr>)]"
proof -
  let ?opts = "\<lparr>withDeleted = Some True\<rparr>"
  let ?p = "no_columns\<lparr>set_deletedAt := Some None, set_status := Some ACTIVE\<rparr>"
  let ?w2 = "albumRepository_restoreAll i (called (UserGet i ?opts) w)"
  let ?r = "userRepository_update i ?p ?w2"
  have f: "findOrFail i ?opts w = (Inr u, called (UserGet i ?opts) w)"
    using assms(1) by (simp add: findOrFail_def userRepository_get_def)
  have l: "writes_lifecycle (UserUpdate i ?p)" "\<not> writes_lifecycle (UserGet i ?opts)"
    "\<not> writes_lifecycle (AlbumRestoreAll i)"
    by (simp_all add: writes_lifecycle_def)
  have d: "snd (restore auth i w) = snd ?r"
    unfolding restore_def f by (simp add: Let_def snd_mapped)
  show "users (snd (restore auth i w))
           = map (\<lambda>x. if userId x = i then apply_patch ?p x else x) (users w)"
    unfolding d by simp
  show "filter writes_lifecycle (new_calls w (snd (restore auth i w))) = [UserUpdate i ?p]"
    unfolding d new_calls_def by (simp add: l)
qed

lemma restore_writes:
  "filter writes_lifecycle (new_calls w (snd (restore auth i w)))
     = (case fst (userRepository_get i \<lparr>withDeleted = Some True\<rparr> w) of
          None \<Rightarrow> []
        | Some u \<Rightarrow>
            [UserUpdate i (no_columns\<lparr>set_deletedAt := Some None, set_status := Some ACTIVE\<rparr>)])"
proof (cases "fst (userRepository_get i \<lparr>withDeleted = Some True\<rparr> w)")
  case None
  then show ?thesis
    by (simp add: restore_def findOrFail_def userRepository_get_def new_calls_def
        writes_lifecycle_def)
next
  case (Some u)
  then show ?thesis
    using restore_resolved(2)[OF Some] by simp
qed

lemma restore_rows:
  "list_all (\<lambda>x. userId x = i \<longrightarrow> status x = ACTIVE \<and> deletedAt x = None)
     (users (snd (restore auth i w)))"
proof (cases "fst (userRepository_get i \<lparr>withDeleted = Some True\<rparr> w)")
  case None
  then have "snd (restore auth i w) = called (UserGet i \<lparr>withDeleted = Some True\<rparr>) w"
    by (simp add: restore_def findOrFail_def userRepository_get_def)
  then show ?thesis
    using get_None_absent[OF None] by simp
next
  case (Some u)
  show ?thesis
    unfolding restore_resolved(1)[OF Some]
    by (rule rows_rewritten) (simp add: apply_restore_patch)
qed

subsection \<open>What search, update and create do not write\<close>

lemma search_quiet:
  "filter writes_lifecycle (new_calls w (snd (search auth dto w))) = []"
proof -
  have "snd (search auth dto w) = snd (userRepository_getList (search_withDeleted dto) w)"
    by (cases "userRepository_getList (search_withDeleted dto) w") (simp add: search_def)
  then show ?thesis
    by (simp add: new_calls_def writes_lifecycle_def)
qed

lemma update_quiet:
  "filter writes_lifecycle (new_calls w (snd (update auth i dto w))) = []"
proof (cases "fst (userRepository_get i \<lparr>withDeleted = None\<rparr> w)")
  case None
  then show ?thesis
    by (simp add: update_def findOrFail_def userRepository_get_def new_calls_def
        writes_lifecycle_def)
next
  case (Some u)
  show ?thesis
    unfolding update_calls[OF Some]
    by (simp add: writes_lifecycle_def split: option.split)
qed

lemma create_steps:
  assumes refl: "\<And>w. R w w"
    and trans: "\<And>a b c. R a b \<Longrightarrow> R b c \<Longrightarrow> R a c"
    and createUser: "\<And>w d. R w (snd (userCore_createUser d w))"
    and upsert: "\<And>w j k v. R w (userRepository_upsertMetadata j k v w)"
    and lookup: "\<And>w j opts. R w (snd (findOrFail j opts w))"
    and queue: "\<And>w item. R w (jobRepository_queue item w)"
  shows "R w (snd (create dto w))"
proof -
  let ?rest = "UserCreateDto.truncate dto"
  obtain r1 w1 where c: "userCore_createUser ?rest w = (r1, w1)"
    by (cases "userCore_createUser ?rest w")
  have 1: "R w w1"
    using createUser[of w ?rest] c by simp
  show ?thesis
  proof (cases r1)
    case (Inl e)
    then show ?thesis
      using 1 c by (simp add: create_def Let_def)
  next
    case (Inr created)
    let ?s = "if new_memoriesEnabled dto = Some False
              then findOrFail (userId created) \<lparr>withDeleted = None\<rparr>
                     (userRepository_upsertMetadata (userId created) PREFERENCES
                        \<lparr>memories_enabled_opt = Some False, avatar_color_opt = None\<rparr> w1)
              else (Inr created, w1)"
    obtain r2 w2 where s: "?s = (r2, w2)"
      by (cases ?s)
    have "R w1 (snd ?s)"
      by (simp add: refl trans[OF upsert lookup] del: findOrFail_fields)
    then have 2: "R w w2"
      using trans[OF 1] s by simp
    show ?thesis
    proof (cases r2)
      case (Inl e)
      then show ?thesis
        using 2 c Inr s by (simp add: create_def Let_def)
    next
      case u: (Inr u)
      have "R w (if truthy (new_notify dto) then jobRepository_queue item w2 else w2)"
        for item
        using 2 trans[OF 2 queue] by simp
      then show ?thesis
        using c Inr s u by (simp add: create_def Let_def)
    qed
  qed
qed

lemma create_quiet:
  "filter writes_lifecycle (new_calls w (snd (create dto w))) = []"
proof -
  let ?R = "\<lambda>w w'. \<exists>cs. calls w' = calls w @ cs \<and> filter writes_lifecycle cs = []"
  have "?R w (snd (create dto w))"
  proof (rule create_steps[where R = ?R])
    fix a b c :: "'a World"
    assume "?R a b" and "?R b c"
    then obtain cs ds where "calls b = calls a @ cs" "filter writes_lifecycle cs = []"
      "calls c = calls b @ ds" "filter writes_lifecycle ds = []"
      by blast
    then have "calls c = calls a @ (cs @ ds) \<and> filter writes_lifecycle (cs @ ds) = []"
      by simp
    then show "?R a c"
      by blast
  qed (simp_all add: writes_lifecycle_def)
  then show ?thesis
    by (auto simp: new_calls_def)
qed

section \<open>Deleting and restoring\<close>

text \<open>
  C1. When the id resolves, under the lookup of \<open>delete\<close>, to a user with \<open>isAdmin\<close>, then
  \<open>delete\<close> throws the forbidden error ``Cannot delete admin user'' whatever the command
  (so for both values of \<open>force\<close>), and the world it leaves differs from the one it found
  only by the record of the lookup: no row of the user store is written, no album is
  touched, no job is queued.
\<close>

theorem delete_admin_forbidden:
  assumes "fst (userRepository_get i \<lparr>withDeleted = None\<rparr> w) = Some u" and "isAdmin u"
  shows "delete auth i dto w =
           (Inl (ForbiddenException ''Cannot delete admin user''),
            w\<lparr>calls := calls w @ [UserGet i \<lparr>withDeleted = None\<rparr>]\<rparr>)"
  using assms by (simp add: delete_def findOrFail_def userRepository_get_def called_def)

theorem delete_admin_forbidden_witness:
  "fst (userRepository_get ''admin'' \<lparr>withDeleted = None\<rparr> demo_world) = Some demo_admin
   \<and> isAdmin demo_admin
   \<and> fst (delete demo_auth ''admin'' \<lparr>force = Some True\<rparr> demo_world)
        = Inl (ForbiddenException ''Cannot delete admin user'')
   \<and> fst (delete demo_auth ''admin'' \<lparr>force = Some False\<rparr> demo_world)
        = Inl (ForbiddenException ''Cannot delete admin user'')
   \<and> users (snd (delete demo_auth ''admin'' \<lparr>force = Some True\<rparr> demo_world)) = users demo_world
   \<and> users (snd (delete demo_auth ''admin'' \<lparr>force = Some False\<rparr> demo_world)) = users demo_world"
proof -
  have h1: "fst (userRepository_get ''admin'' \<lparr>withDeleted = None\<rparr> demo_world) = Some demo_admin"
    by (simp add: userRepository_get_def demo_world_def demo_admin_def visible_def)
  have h2: "isAdmin demo_admin"
    by (simp add: demo_admin_def)
  show ?thesis
    using h1 h2 delete_admin_forbidden[OF h1 h2, of demo_auth "\<lparr>force = Some True\<rparr>"]
      delete_admin_forbidden[OF h1 h2, of demo_auth "\<lparr>force = Some False\<rparr>"]
    by simp
qed

text \<open>
  C2. For a user that exists, is not soft-deleted and is no admin, \<open>delete\<close> without a truthy
  \<open>force\<close> succeeds; the stored user afterwards is the old one with \<open>status = DELETED\<close> and
  \<open>deletedAt\<close> set to the time read from the clock (so not null); the queue is unchanged,
  and the calls made are the lookup, the album soft-delete and the one update: no job
  is queued.
\<close>

theorem delete_soft:
  assumes "find (\<lambda>x. userId x = i) (users w) = Some u"
    and "deletedAt u = None" and "\<not> isAdmin u" and "force dto \<noteq> Some True"
  shows "fst (delete auth i dto w)
           = Inr (mapUser (u\<lparr>status := DELETED, deletedAt := Some (clock w)\<rparr>))
       \<and> find (\<lambda>x. userId x = i) (users (snd (delete auth i dto w)))
           = Some (u\<lparr>status := DELETED, deletedAt := Some (clock w)\<rparr>)
       \<and> jobs (snd (delete auth i dto w)) = jobs w
       \<and> calls (snd (delete auth i dto w)) =
           calls w @ [UserGet i \<lparr>withDeleted = None\<rparr>, AlbumSoftDeleteAll i,
                      UserUpdate i (no_columns\<lparr>set_status := Some DELETED,
                                               set_deletedAt := Some (Some (clock w))\<rparr>)]"
  using assms(1,4) by (simp add: delete_found[OF assms(1-3)] find_rewritten)

theorem delete_soft_witness:
  "find (\<lambda>x. userId x = ''user2'') (users demo_world) = Some demo_user2
   \<and> deletedAt demo_user2 = None \<and> \<not> isAdmin demo_user2
   \<and> force \<lparr>force = Some False\<rparr> \<noteq> Some True
   \<and> fst (delete demo_auth ''user2'' \<lparr>force = Some False\<rparr> demo_world)
        = Inr (mapUser (demo_user2\<lparr>status := DELETED, deletedAt := Some 7\<rparr>))
   \<and> jobs (snd (delete demo_auth ''user2'' \<lparr>force = Some False\<rparr> demo_world)) = []"
proof -
  have h1: "find (\<lambda>x. userId x = ''user2'') (users demo_world) = Some demo_user2"
    by (simp add: demo_world_def demo_admin_def demo_user1_def demo_user2_def)
  have h2: "deletedAt demo_user2 = None" and h3: "\<not> isAdmin demo_user2"
    by (simp_all add: demo_user2_def)
  have h4: "force \<lparr>force = Some False\<rparr> \<noteq> Some True"
    by simp
  have c: "clock demo_world = 7" and j: "jobs demo_world = []"
    by (simp_all add: demo_world_def)
  show ?thesis
    using h1 h2 h3 delete_soft[OF h1 h2 h3 h4, of demo_auth] by (simp add: c j)
qed

text \<open>
  C3. For a user that exists, is not soft-deleted and is no admin, \<open>delete\<close> with
  \<open>force = true\<close> succeeds; the stored user afterwards is the old one with
  \<open>status = REMOVING\<close> and \<open>deletedAt\<close> set to the time read from the clock; exactly one job
  is added to the queue, a \<open>USER_DELETION\<close> job whose data carry the id of the user and the
  force flag.
\<close>

theorem delete_force:
  assumes "find (\<lambda>x. userId x = i) (users w) = Some u"
    and "deletedAt u = None" and "\<not> isAdmin u" and "force dto = Some True"
  shows "fst (delete auth i dto w)
           = Inr (mapUser (u\<lparr>status := REMOVING, deletedAt := Some (clock w)\<rparr>))
       \<and> find (\<lambda>x. userId x = i) (users (snd (delete auth i dto w)))
           = Some (u\<lparr>status := REMOVING, deletedAt := Some (clock w)\<rparr>)
       \<and> jobs (snd (delete auth i dto w))
           = jobs w @ [JobItem USER_DELETION (DeletionData i (force dto))]
       \<and> calls (snd (delete auth i dto w)) =
           calls w @ [UserGet i \<lparr>withDeleted = None\<rparr>, AlbumSoftDeleteAll i,
                      UserUpdate i (no_columns\<lparr>set_status := Some REMOVING,
                                               set_deletedAt := Some (Some (clock w))\<rparr>),
                      JobQueue (JobItem USER_DELETION (DeletionData i (force dto)))]"
  using assms(1,4) by (simp add: delete_found[OF assms(1-3)] find_rewritten)

theorem delete_force_witness:
  "find (\<lambda>x. userId x = ''user2'') (users demo_world) = Some demo_user2
   \<and> deletedAt demo_user2 = None \<and> \<not> isAdmin demo_user2
   \<and> fst (delete demo_auth ''user2'' \<lparr>force = Some True\<rparr> demo_world)
        = Inr (mapUser (demo_user2\<lparr>status := REMOVING, deletedAt := Some 7\<rparr>))
   \<and> jobs (snd (delete demo_auth ''user2'' \<lparr>force = Some True\<rparr> demo_world))
        = [JobItem USER_DELETION (DeletionData ''user2'' (Some True))]"
proof -
  have h1: "find (\<lambda>x. userId x = ''user2'') (users demo_world) = Some demo_user2"
    by (simp add: demo_world_def demo_admin_def demo_user1_def demo_user2_def)
  have h2: "deletedAt demo_user2 = None" and h3: "\<not> isAdmin demo_user2"
    by (simp_all add: demo_user2_def)
  have h4: "force \<lparr>force = Some True\<rparr> = Some True"
    by simp
  have c: "clock demo_world = 7" and j: "jobs demo_world = []"
    by (simp_all add: demo_world_def)
  show ?thesis
    using h1 h2 h3 delete_force[OF h1 h2 h3 h4, of demo_auth] by (simp add: c j)
qed

text \<open>
  C9. When every row with the given id is soft-deleted (\<open>deletedAt\<close> not null), \<open>delete\<close>
  throws the bad-request error ``User not found'' whatever the command, and the world it
  leaves differs from the one it found only by the record of the lookup: no album is
  soft-deleted, no status is written, no job is queued.
\<close>

theorem delete_deleted_not_found:
  assumes "list_all (\<lambda>u. userId u = i \<longrightarrow> deletedAt u \<noteq> None) (users w)"
  shows "delete auth i dto w =
           (Inl (BadRequestException ''User not found''),
            w\<lparr>calls := calls w @ [UserGet i \<lparr>withDeleted = None\<rparr>]\<rparr>)"
proof -
  have "list_all (\<lambda>u. userId u = i \<longrightarrow> \<not> visible (withDeleted \<lparr>withDeleted = None\<rparr>) u) (users w)"
    using assms by (simp add: visible_def truthy_def)
  then show ?thesis
    by (simp add: delete_def findOrFail_hidden called_def)
qed

theorem delete_deleted_not_found_witness:
  "list_all (\<lambda>u. userId u = ''user1'' \<longrightarrow> deletedAt u \<noteq> None) (users demo_world)
   \<and> find (\<lambda>x. userId x = ''user1'') (users demo_world) = Some demo_user1
   \<and> status demo_user1 = DELETED
   \<and> delete demo_auth ''user1'' \<lparr>force = Some True\<rparr> demo_world
        = (Inl (BadRequestException ''User not found''),
           demo_world\<lparr>calls := [UserGet ''user1'' \<lparr>withDeleted = None\<rparr>]\<rparr>)"
proof -
  have h: "list_all (\<lambda>u. userId u = ''user1'' \<longrightarrow> deletedAt u \<noteq> None) (users demo_world)"
    by (simp add: demo_world_def demo_admin_def demo_user1_def demo_user2_def)
  have c: "calls demo_world = []"
    by (simp add: demo_world_def)
  have m: "find (\<lambda>x. userId x = ''user1'') (users demo_world) = Some demo_user1"
    "status demo_user1 = DELETED"
    by (simp_all add: demo_world_def demo_admin_def demo_user1_def)
  show ?thesis
    using h m delete_deleted_not_found[OF h, of demo_auth "\<lparr>force = Some True\<rparr>"]
    by (simp add: c)
qed

text \<open>
  C4. When the id resolves, soft-deleted rows included, to a soft-deleted user, \<open>restore\<close>
  succeeds; the stored user afterwards is the old one with \<open>status = ACTIVE\<close> and
  \<open>deletedAt = null\<close>; the album store was asked to restore all albums of that user, and
  afterwards no album owned by the user is soft-deleted.
\<close>

theorem restore_soft_deleted:
  assumes "fst (userRepository_get i \<lparr>withDeleted = Some True\<rparr> w) = Some u"
    and "deletedAt u \<noteq> None"
  shows "fst (restore auth i w) = Inr (mapUser (u\<lparr>status := ACTIVE, deletedAt := None\<rparr>))
       \<and> find (\<lambda>x. userId x = i) (users (snd (restore auth i w)))
           = Some (u\<lparr>status := ACTIVE, deletedAt := None\<rparr>)
       \<and> AlbumRestoreAll i \<in> set (calls (snd (restore auth i w)))
       \<and> list_all (\<lambda>a. ownerId a = i \<longrightarrow> albumDeletedAt a = None)
            (albums (snd (restore auth i w)))"
proof -
  have f: "find (\<lambda>x. userId x = i) (users w) = Some u"
    using assms(1) by (simp add: userRepository_get_def visible_def truthy_def)
  show ?thesis
    by (simp add: restore_found[OF f] find_rewritten f restored_albums)
qed

theorem restore_soft_deleted_witness:
  "fst (userRepository_get ''user1'' \<lparr>withDeleted = Some True\<rparr> demo_world) = Some demo_user1
   \<and> deletedAt demo_user1 \<noteq> None
   \<and> fst (restore demo_auth ''user1'' demo_world)
        = Inr (mapUser (demo_user1\<lparr>status := ACTIVE, deletedAt := None\<rparr>))
   \<and> find (\<lambda>x. userId x = ''user1'') (users (snd (restore demo_auth ''user1'' demo_world)))
        = Some (demo_user1\<lparr>status := ACTIVE, deletedAt := None\<rparr>)
   \<and> AlbumRestoreAll ''user1'' \<in> set (calls (snd (restore demo_auth ''user1'' demo_world)))"
proof -
  have h1: "fst (userRepository_get ''user1'' \<lparr>withDeleted = Some True\<rparr> demo_world)
              = Some demo_user1"
    by (simp add: userRepository_get_def demo_world_def demo_admin_def demo_user1_def
        visible_def truthy_def)
  have h2: "deletedAt demo_user1 \<noteq> None"
    by (simp add: demo_user1_def)
  show ?thesis
    using h1 h2 restore_soft_deleted[OF h1 h2, of demo_auth] by simp
qed

text \<open>
  C10. \<open>restore\<close> fails only when no row has the given id, and then with ``User not found''.
  When a row has the id, soft-deleted or not, \<open>restore\<close> succeeds and leaves the user
  \<open>ACTIVE\<close> with \<open>deletedAt = null\<close>; a second \<open>restore\<close> right after it (by any caller)
  succeeds as well, with the same result, and leaves the rows of the user store and of
  the album store as the first one left them.
\<close>

theorem restore_idempotent:
  "(case find (\<lambda>x. userId x = i) (users w) of
      None \<Rightarrow> fst (restore auth i w) = Inl (BadRequestException ''User not found'')
    | Some u \<Rightarrow>
        fst (restore auth i w) = Inr (mapUser (u\<lparr>status := ACTIVE, deletedAt := None\<rparr>))
        \<and> fst (restore auth' i (snd (restore auth i w)))
            = Inr (mapUser (u\<lparr>status := ACTIVE, deletedAt := None\<rparr>))
        \<and> find (\<lambda>x. userId x = i) (users (snd (restore auth i w)))
            = Some (u\<lparr>status := ACTIVE, deletedAt := None\<rparr>)
        \<and> users (snd (restore auth' i (snd (restore auth i w)))) = users (snd (restore auth i w))
        \<and> albums (snd (restore auth' i (snd (restore auth i w)))) = albums (snd (restore auth i w)))"
proof (cases "find (\<lambda>x. userId x = i) (users w)")
  case None
  then show ?thesis
    by (simp add: restore_def findOrFail_hidden[OF find_None_absent])
next
  case (Some u)
  let ?u = "u\<lparr>status := ACTIVE, deletedAt := None\<rparr>"
  let ?w1 = "snd (restore auth i w)"
  have 1: "find (\<lambda>x. userId x = i) (users ?w1) = Some ?u"
    by (simp add: restore_found[OF Some] find_rewritten Some)
  have 2: "fst (restore auth' i ?w1) = Inr (mapUser ?u)"
    by (simp add: restore_found[OF 1])
  have 3: "users (snd (restore auth' i ?w1)) = users ?w1"
    by (simp add: restore_found[OF 1]) (simp add: restore_found[OF Some])
  have 4: "albums (snd (restore auth' i ?w1)) = albums ?w1"
    by (simp add: restore_found[OF 1]) (simp add: restore_found[OF Some])
  show ?thesis
    using 1 2 3 4 by (simp add: Some restore_found[OF Some])
qed

theorem restore_idempotent_witness:
  "find (\<lambda>x. userId x = ''user2'') (users demo_world) = Some demo_user2
   \<and> status demo_user2 = ACTIVE
   \<and> fst (restore demo_auth ''user2'' demo_world) = Inr (mapUser demo_user2)
   \<and> fst (restore demo_auth ''user2'' (snd (restore demo_auth ''user2'' demo_world)))
        = Inr (mapUser demo_user2)
   \<and> find (\<lambda>x. userId x = ''nobody'') (users demo_world) = None
   \<and> fst (restore demo_auth ''nobody'' demo_world) = Inl (BadRequestException ''User not found'')"
proof -
  have h1: "find (\<lambda>x. userId x = ''user2'') (users demo_world) = Some demo_user2"
    by (simp add: demo_world_def demo_admin_def demo_user1_def demo_user2_def)
  have h2: "find (\<lambda>x. userId x = ''nobody'') (users demo_world) = None"
    by (simp add: demo_world_def demo_admin_def demo_user1_def demo_user2_def)
  have u: "demo_user2\<lparr>status := ACTIVE, deletedAt := None\<rparr> = demo_user2"
    "status demo_user2 = ACTIVE"
    by (simp_all add: demo_user2_def)
  show ?thesis
    using restore_idempotent[where i = "''user2''" and w = demo_world and auth = demo_auth
        and auth' = demo_auth]
      restore_idempotent[where i = "''nobody''" and w = demo_world and auth = demo_auth
        and auth' = demo_auth]
    by (simp add: h1 h2 u)
qed

section \<open>Creating\<close>

text \<open>
  C8. The jobs \<open>create\<close> adds to the queue: none when it throws; none when \<open>notify\<close> is not
  true; otherwise exactly one \<open>NOTIFY_SIGNUP\<close> job, whose data are the id of the created
  user and, as \<open>tempPassword\<close>, the plaintext password of the command when the created
  user has \<open>shouldChangePassword\<close> and undefined (\<open>None\<close>) when not.
\<close>

theorem create_notifies:
  "jobs (snd (create dto w)) =
     jobs w @
     (case fst (create dto w) of
        Inl e \<Rightarrow> []
      | Inr r \<Rightarrow>
          if new_notify dto = Some True
          then [JobItem NOTIFY_SIGNUP
                  (SignupData (res_id r)
                     (if res_shouldChangePassword r then Some (new_password dto) else None))]
          else [])"
proof -
  let ?rest = "UserCreateDto.truncate dto"
  obtain r1 w1 where c: "userCore_createUser ?rest w = (r1, w1)"
    by (cases "userCore_createUser ?rest w")
  have 1: "jobs w1 = jobs w"
    using createUser_fields[of ?rest w] c by simp
  have p: "new_password ?rest = new_password dto"
    by (simp add: UserCreateDto.truncate_def)
  show ?thesis
  proof (cases r1)
    case (Inl e)
    then show ?thesis
      using 1 c by (simp add: create_def Let_def)
  next
    case (Inr created)
    let ?s = "if new_memoriesEnabled dto = Some False
              then findOrFail (userId created) \<lparr>withDeleted = None\<rparr>
                     (userRepository_upsertMetadata (userId created) PREFERENCES
                        \<lparr>memories_enabled_opt = Some False, avatar_color_opt = None\<rparr> w1)
              else (Inr created, w1)"
    obtain r2 w2 where s: "?s = (r2, w2)"
      by (cases ?s)
    have "jobs (snd ?s) = jobs w1"
      by simp
    then have 2: "jobs w2 = jobs w"
      using 1 s by simp
    show ?thesis
    proof (cases r2)
      case (Inl e)
      then show ?thesis
        using 2 c Inr s by (simp add: create_def Let_def)
    next
      case u: (Inr u)
      show ?thesis
        using 2 c Inr s u
        by (simp add: create_def Let_def p jobRepository_queue_def truthy_def mapUser_def)
    qed
  qed
qed

theorem create_notifies_witness:
  "jobs (snd (create demo_create demo_world))
     = [JobItem NOTIFY_SIGNUP (SignupData ''user3'' (Some ''Password123''))]
   \<and> jobs (snd (create (demo_create\<lparr>new_shouldChangePassword := Some False\<rparr>) demo_world))
     = [JobItem NOTIFY_SIGNUP (SignupData ''user3'' None)]
   \<and> jobs (snd (create (demo_create\<lparr>new_notify := Some False\<rparr>) demo_world)) = []"
proof -
  have 1: "fst (create demo_create demo_world)
             = Inr \<lparr>res_id = ''user3'', res_email = ''user3@immich.cloud'',
                    res_name = ''User 3'', res_isAdmin = False,
                    res_shouldChangePassword = True, res_deletedAt = None\<rparr>"
    by (simp add: create_def userCore_createUser_def Let_def UserCreateDto.truncate_def
        mapUser_def called_def truthy_def demo_world_def demo_create_def demo_admin_def
        demo_user1_def demo_user2_def)
  have 2: "fst (create (demo_create\<lparr>new_shouldChangePassword := Some False\<rparr>) demo_world)
             = Inr \<lparr>res_id = ''user3'', res_email = ''user3@immich.cloud'',
                    res_name = ''User 3'', res_isAdmin = False,
                    res_shouldChangePassword = False, res_deletedAt = None\<rparr>"
    by (simp add: create_def userCore_createUser_def Let_def UserCreateDto.truncate_def
        mapUser_def called_def truthy_def demo_world_def demo_create_def demo_admin_def
        demo_user1_def demo_user2_def)
  have j: "jobs demo_world = []"
    by (simp add: demo_world_def)
  have n: "new_notify demo_create = Some True" "new_password demo_create = ''Password123''"
    by (simp_all add: demo_create_def)
  show ?thesis
    using 1 2 create_notifies[of demo_create demo_world]
      create_notifies[of "demo_create\<lparr>new_shouldChangePassword := Some False\<rparr>" demo_world]
      create_notifies[of "demo_create\<lparr>new_notify := Some False\<rparr>" demo_world]
    by (auto simp: j n split: sum.splits)
qed

section \<open>Updating\<close>

text \<open>
  C6, as amended. For a user that the lookup of \<open>update\<close> resolves: when the command
  gives a quota that is a number other than 0 and other than the stored quota, the
  first two calls \<open>update\<close> makes are the lookup and the usage resync of that user, there
  is exactly one resync, and the call of the user core that applies the patch comes
  after them. When the command gives no quota, or gives null, 0 or the stored quota,
  \<open>update\<close> makes no resync, whatever other fields the command carries.
\<close>

theorem update_resync:
  assumes "fst (userRepository_get i \<lparr>withDeleted = None\<rparr> w) = Some u"
  shows "(\<forall>n. upd_quotaSizeInBytes dto = Some (Some n) \<and> n \<noteq> 0 \<and> quotaSizeInBytes u \<noteq> Some n \<longrightarrow>
            take 2 (new_calls w (snd (update auth i dto w)))
              = [UserGet i \<lparr>withDeleted = None\<rparr>, UserSyncUsage i]
          \<and> filter is_syncUsage (new_calls w (snd (update auth i dto w))) = [UserSyncUsage i]
          \<and> filter is_updateUser (drop 2 (new_calls w (snd (update auth i dto w))))
              = [CoreUpdateUser (user auth) i
                   (dto\<lparr>upd_memoriesEnabled := None, upd_avatarColor := None\<rparr>)])
       \<and> (upd_quotaSizeInBytes dto = None \<or> upd_quotaSizeInBytes dto = Some None
            \<or> upd_quotaSizeInBytes dto = Some (Some 0)
            \<or> upd_quotaSizeInBytes dto = Some (quotaSizeInBytes u) \<longrightarrow>
          filter is_syncUsage (new_calls w (snd (update auth i dto w))) = [])"
proof (intro conjI allI impI)
  fix n
  assume q: "upd_quotaSizeInBytes dto = Some (Some n) \<and> n \<noteq> 0 \<and> quotaSizeInBytes u \<noteq> Some n"
  then have s: "truthy_number (upd_quotaSizeInBytes dto)
                  \<and> Some (quotaSizeInBytes u) \<noteq> upd_quotaSizeInBytes dto"
    by (auto simp: truthy_number_def)
  show "take 2 (new_calls w (snd (update auth i dto w)))
          = [UserGet i \<lparr>withDeleted = None\<rparr>, UserSyncUsage i]"
    using s by (simp add: update_calls[OF assms])
  show "filter is_syncUsage (new_calls w (snd (update auth i dto w))) = [UserSyncUsage i]"
    using s by (simp add: update_calls[OF assms] is_syncUsage_def split: option.split)
  show "filter is_updateUser (drop 2 (new_calls w (snd (update auth i dto w))))
          = [CoreUpdateUser (user auth) i
               (dto\<lparr>upd_memoriesEnabled := None, upd_avatarColor := None\<rparr>)]"
    using s by (simp add: update_calls[OF assms] is_updateUser_def split: option.split)
next
  assume "upd_quotaSizeInBytes dto = None \<or> upd_quotaSizeInBytes dto = Some None
            \<or> upd_quotaSizeInBytes dto = Some (Some 0)
            \<or> upd_quotaSizeInBytes dto = Some (quotaSizeInBytes u)"
  then have s: "\<not> (truthy_number (upd_quotaSizeInBytes dto)
                  \<and> Some (quotaSizeInBytes u) \<noteq> upd_quotaSizeInBytes dto)"
    by (auto simp: truthy_number_def)
  show "filter is_syncUsage (new_calls w (snd (update auth i dto w))) = []"
    using s by (simp add: update_calls[OF assms] is_syncUsage_def split: option.split)
qed

theorem update_resync_witness:
  "fst (userRepository_get ''user2'' \<lparr>withDeleted = None\<rparr> demo_world) = Some demo_user2
   \<and> take 2 (new_calls demo_world
        (snd (update demo_auth ''user2'' (no_changes\<lparr>upd_quotaSizeInBytes := Some (Some 20)\<rparr>)
                demo_world)))
       = [UserGet ''user2'' \<lparr>withDeleted = None\<rparr>, UserSyncUsage ''user2'']
   \<and> filter is_syncUsage (new_calls demo_world
        (snd (update demo_auth ''user2'' (no_changes\<lparr>upd_name := Some ''Name''\<rparr>)
                demo_world))) = []
   \<and> filter is_syncUsage (new_calls demo_world
        (snd (update demo_auth ''user2'' (no_changes\<lparr>upd_quotaSizeInBytes := Some (Some 10)\<rparr>)
                demo_world))) = []"
proof -
  have q: "quotaSizeInBytes demo_user2 = Some 10"
    by (simp add: demo_user2_def)
  show ?thesis
    using demo_found
      update_resync[OF demo_found, of "no_changes\<lparr>upd_quotaSizeInBytes := Some (Some 20)\<rparr>"
        demo_auth]
      update_resync[OF demo_found, of "no_changes\<lparr>upd_name := Some ''Name''\<rparr>" demo_auth]
      update_resync[OF demo_found, of "no_changes\<lparr>upd_quotaSizeInBytes := Some (Some 10)\<rparr>"
        demo_auth]
    by (simp add: q no_changes_def)
qed

text \<open>
  C6 as stated fails: the guard is \<open>dto.quotaSizeInBytes && ...\<close>, and 0 and null are
  falsy. The stored quota of the example user is 10; a command setting the quota to 0, or
  to null, sets it to a different value and yet no resync is made.
\<close>

theorem update_resync_counterexample:
  "fst (userRepository_get ''user2'' \<lparr>withDeleted = None\<rparr> demo_world) = Some demo_user2
   \<and> quotaSizeInBytes demo_user2 = Some 10
   \<and> filter is_syncUsage
        (new_calls demo_world
           (snd (update demo_auth ''user2'' (no_changes\<lparr>upd_quotaSizeInBytes := Some (Some 0)\<rparr>)
                   demo_world))) = []
   \<and> filter is_syncUsage
        (new_calls demo_world
           (snd (update demo_auth ''user2'' (no_changes\<lparr>upd_quotaSizeInBytes := Some None\<rparr>)
                   demo_world))) = []"
proof -
  have q: "quotaSizeInBytes demo_user2 = Some 10"
    by (simp add: demo_user2_def)
  have r: "rules demo_world a i d = None" for a i d
    by (simp add: demo_world_def)
  show ?thesis
    by (simp add: demo_found q update_calls[OF demo_found] r no_changes_def truthy_number_def
        is_syncUsage_def)
qed



section \<open>The invariant of status and deletedAt\<close>

text \<open>
  C5. If every stored user has \<open>deletedAt\<close> not null exactly when the status is \<open>DELETED\<close> or
  \<open>REMOVING\<close>, then so it is after each of \<open>search\<close>, \<open>create\<close>, \<open>update\<close>, \<open>delete\<close> and
  \<open>restore\<close>, whatever their arguments and whether they succeed or throw; and every
  update any of them sends to the user store writes either none of the two columns or
  both with values that agree. \<open>search\<close>, \<open>create\<close> and \<open>update\<close> send no update that
  writes \<open>status\<close> or \<open>deletedAt\<close>. \<open>delete\<close> sends exactly one when its lookup resolves a
  user that is no admin, and none otherwise: it writes \<open>REMOVING\<close> (with \<open>force\<close>) or
  \<open>DELETED\<close> together with the date read from the clock, and afterwards every row of that
  id has that status and that date. \<open>restore\<close> sends exactly one when a row has the id, and
  none otherwise: it writes \<open>ACTIVE\<close> together with \<open>deletedAt = null\<close>, and afterwards every
  row of that id is \<open>ACTIVE\<close> with \<open>deletedAt\<close> null.
\<close>

theorem lifecycle_keeps_status_consistent:
  assumes "store_consistent w"
  shows "store_consistent (snd (search auth sdto w))
       \<and> list_all write_consistent (new_calls w (snd (search auth sdto w)))
       \<and> store_consistent (snd (create cdto w))
       \<and> list_all write_consistent (new_calls w (snd (create cdto w)))
       \<and> store_consistent (snd (update auth i udto w))
       \<and> list_all write_consistent (new_calls w (snd (update auth i udto w)))
       \<and> store_consistent (snd (delete auth i ddto w))
       \<and> list_all write_consistent (new_calls w (snd (delete auth i ddto w)))
       \<and> store_consistent (snd (restore auth i w))
       \<and> list_all write_consistent (new_calls w (snd (restore auth i w)))
       \<and> filter writes_lifecycle (new_calls w (snd (search auth sdto w))) = []
       \<and> filter writes_lifecycle (new_calls w (snd (create cdto w))) = []
       \<and> filter writes_lifecycle (new_calls w (snd (update auth i udto w))) = []
       \<and> filter writes_lifecycle (new_calls w (snd (delete auth i ddto w)))
           = (case fst (userRepository_get i \<lparr>withDeleted = None\<rparr> w) of
                None \<Rightarrow> []
              | Some u \<Rightarrow>
                  if isAdmin u then []
                  else [UserUpdate i
                          (no_columns\<lparr>set_status :=
                                        Some (if force ddto = Some True then REMOVING else DELETED),
                                      set_deletedAt := Some (Some (clock w))\<rparr>)])
       \<and> (\<forall>u. fst (userRepository_get i \<lparr>withDeleted = None\<rparr> w) = Some u \<and> \<not> isAdmin u \<longrightarrow>
              list_all (\<lambda>x. userId x = i \<longrightarrow>
                             status x = (if force ddto = Some True then REMOVING else DELETED)
                             \<and> deletedAt x = Some (clock w))
                (users (snd (delete auth i ddto w))))
       \<and> filter writes_lifecycle (new_calls w (snd (restore auth i w)))
           = (case fst (userRepository_get i \<lparr>withDeleted = Some True\<rparr> w) of
                None \<Rightarrow> []
              | Some u \<Rightarrow>
                  [UserUpdate i
                     (no_columns\<lparr>set_deletedAt := Some None, set_status := Some ACTIVE\<rparr>)])
       \<and> list_all (\<lambda>x. userId x = i \<longrightarrow> status x = ACTIVE \<and> deletedAt x = None)
            (users (snd (restore auth i w)))"
proof -
  have a: "store_consistent (snd (search auth sdto w))
       \<and> list_all write_consistent (new_calls w (snd (search auth sdto w)))
       \<and> store_consistent (snd (create cdto w))
       \<and> list_all write_consistent (new_calls w (snd (create cdto w)))
       \<and> store_consistent (snd (update auth i udto w))
       \<and> list_all write_consistent (new_calls w (snd (update auth i udto w)))
       \<and> store_consistent (snd (delete auth i ddto w))
       \<and> list_all write_consistent (new_calls w (snd (delete auth i ddto w)))
       \<and> store_consistent (snd (restore auth i w))
       \<and> list_all write_consistent (new_calls w (snd (restore auth i w)))"
    using assms sound_search[of w auth sdto] sound_create[of w cdto]
      sound_update_op[of w auth i udto] sound_delete[of w auth i ddto] sound_restore[of w auth i]
    by (simp add: sound_step_def)
  have b: "\<forall>u. fst (userRepository_get i \<lparr>withDeleted = None\<rparr> w) = Some u \<and> \<not> isAdmin u \<longrightarrow>
              list_all (\<lambda>x. userId x = i \<longrightarrow>
                             status x = (if force ddto = Some True then REMOVING else DELETED)
                             \<and> deletedAt x = Some (clock w))
                (users (snd (delete auth i ddto w)))"
    using delete_rows by blast
  from a b show ?thesis
    by (simp only: search_quiet create_quiet update_quiet delete_writes restore_writes
        restore_rows simp_thms)
qed

theorem lifecycle_keeps_status_consistent_witness:
  "store_consistent demo_world
   \<and> store_consistent (snd (delete demo_auth ''user2'' \<lparr>force = Some True\<rparr> demo_world))
   \<and> store_consistent (snd (restore demo_auth ''user1'' demo_world))
   \<and> store_consistent (snd (create demo_create demo_world))
   \<and> store_consistent (snd (update demo_auth ''user2'' no_changes demo_world))
   \<and> store_consistent (snd (search demo_auth \<lparr>search_withDeleted = Some True\<rparr> demo_world))
   \<and> status (the (find (\<lambda>x. userId x = ''user2'')
        (users (snd (delete demo_auth ''user2'' \<lparr>force = Some True\<rparr> demo_world))))) = REMOVING
   \<and> filter writes_lifecycle
        (new_calls demo_world (snd (delete demo_auth ''user2'' \<lparr>force = Some True\<rparr> demo_world)))
       = [UserUpdate ''user2''
            (no_columns\<lparr>set_status := Some REMOVING, set_deletedAt := Some (Some 7)\<rparr>)]
   \<and> filter writes_lifecycle (new_calls demo_world (snd (restore demo_auth ''user1'' demo_world)))
       = [UserUpdate ''user1''
            (no_columns\<lparr>set_deletedAt := Some None, set_status := Some ACTIVE\<rparr>)]
   \<and> list_all (\<lambda>x. userId x = ''user1'' \<longrightarrow> status x = ACTIVE \<and> deletedAt x = None)
        (users (snd (restore demo_auth ''user1'' demo_world)))"
proof -
  have h: "store_consistent demo_world"
    by (simp add: store_consistent_def status_consistent_def demo_users demo_admin_def
        demo_user1_def demo_user2_def)
  have f: "find (\<lambda>x. userId x = ''user2'') (users demo_world) = Some demo_user2"
    by (simp add: demo_users demo_admin_def demo_user1_def demo_user2_def)
  have d: "deletedAt demo_user2 = None" "\<not> isAdmin demo_user2"
    by (simp_all add: demo_user2_def)
  have r: "status (the (find (\<lambda>x. userId x = ''user2'')
        (users (snd (delete demo_auth ''user2'' \<lparr>force = Some True\<rparr> demo_world))))) = REMOVING"
    by (simp add: delete_found[OF f d] find_rewritten f)
  have g1: "fst (userRepository_get ''user1'' \<lparr>withDeleted = Some True\<rparr> demo_world)
              = Some demo_user1"
    by (simp add: userRepository_get_def demo_users demo_admin_def demo_user1_def
        visible_def truthy_def)
  have c: "clock demo_world = 7"
    by (simp add: demo_world_def)
  show ?thesis
    using h r lifecycle_keeps_status_consistent[OF h, of demo_auth
        "\<lparr>search_withDeleted = Some True\<rparr>" demo_create "''user2''" no_changes
        "\<lparr>force = Some True\<rparr>"]
      lifecycle_keeps_status_consistent[OF h, of demo_auth
        "\<lparr>search_withDeleted = Some True\<rparr>" demo_create "''user1''" no_changes
        "\<lparr>force = Some True\<rparr>"]
    by (simp add: demo_found g1 d c)
qed

end
